theory Spec2Isabelle
  imports Complex_Main "HOL-Library.Multiset"
begin

section \<open>Python values, exceptions and heap nodes\<close>

text \<open>
  The heap engine of \<^verbatim>\<open>ands/ds/Heap.py\<close> is dynamically typed. The values that
  reach it are drawn from the following universe: \<^verbatim>\<open>None\<close>, integers, floats,
  strings, tuples, lists and \<^verbatim>\<open>BHNode\<close> objects (a key and a value).
\<close>

datatype pyfloat = Finite real | PosInf | NegInf | NaN

datatype pyobj =
    PyNone
  | PyInt int
  | PyFloat pyfloat
  | PyStr string
  | PyTuple "pyobj list"
  | PyList "pyobj list"
  | PyBHNode pyobj pyobj

text \<open>
  A raised exception is its class together with its message. The engine raises
  \<^verbatim>\<open>ValueError\<close> and \<^verbatim>\<open>IndexError\<close>; \<^verbatim>\<open>TypeError\<close> comes from the
  interpreter (\<^verbatim>\<open>len\<close> or indexing applied to an object that does not support it).
\<close>

datatype exc_class = ValueError | IndexError | TypeError

type_synonym error = "exc_class \<times> string"

text \<open>\<^verbatim>\<open>class BHNode\<close>: the attribute \<^verbatim>\<open>value\<close> is the field \<open>val\<close>.\<close>

record BHNode =
  key :: pyobj
  val :: pyobj

text \<open>
  \<^verbatim>\<open>BHNode.__init__(self, key, value=None)\<close>: a \<^verbatim>\<open>None\<close> key raises, a
  \<^verbatim>\<open>None\<close> value defaults to the key.
\<close>

definition BHNode_init :: "pyobj \<Rightarrow> pyobj \<Rightarrow> error + BHNode" where
  "BHNode_init k v =
     (if k = PyNone then Inl (ValueError, ''key cannot be None.'')
      else Inr \<lparr>key = k, val = (if v \<noteq> PyNone then v else k)\<rparr>)"

text \<open>
  \<^verbatim>\<open>BHNode.__eq__\<close>: key and value both equal. Python's \<^verbatim>\<open>==\<close> on keys and
  values is the parameter \<open>eq\<close>.
\<close>

definition BHNode_eq :: "(pyobj \<Rightarrow> pyobj \<Rightarrow> bool) \<Rightarrow> BHNode \<Rightarrow> BHNode \<Rightarrow> bool" where
  "BHNode_eq eq self other \<longleftrightarrow> eq (key self) (key other) \<and> eq (val self) (val other)"

text \<open>
  \<^verbatim>\<open>BHNode.__ge__\<close> compares the keys, and \<^verbatim>\<open>BHNode.__lt__\<close> is its negation. Python's
  \<^verbatim>\<open>>=\<close> on keys is the parameter \<open>ge\<close>.
\<close>

definition BHNode_ge :: "(pyobj \<Rightarrow> pyobj \<Rightarrow> bool) \<Rightarrow> BHNode \<Rightarrow> BHNode \<Rightarrow> bool" where
  "BHNode_ge ge self other \<longleftrightarrow> ge (key self) (key other)"

definition BHNode_lt :: "(pyobj \<Rightarrow> pyobj \<Rightarrow> bool) \<Rightarrow> BHNode \<Rightarrow> BHNode \<Rightarrow> bool" where
  "BHNode_lt ge self other \<longleftrightarrow> \<not> BHNode_ge ge self other"

text \<open>\<^verbatim>\<open>BHNode.__str__\<close>: the text of the key; Python's \<^verbatim>\<open>str\<close> is a parameter.\<close>

definition BHNode_str :: "(pyobj \<Rightarrow> string) \<Rightarrow> BHNode \<Rightarrow> string" where
  "BHNode_str py_str self = py_str (key self)"

section \<open>Built-ins used by the engine\<close>

text \<open>\<^verbatim>\<open>isinstance(x, (int, float))\<close>\<close>

fun is_int_or_float :: "pyobj \<Rightarrow> bool" where
  "is_int_or_float (PyInt _) = True"
| "is_int_or_float (PyFloat _) = True"
| "is_int_or_float _ = False"

text \<open>\<^verbatim>\<open>len(x)\<close>: defined on strings, tuples and lists, a \<^verbatim>\<open>TypeError\<close> elsewhere.\<close>

fun py_len :: "pyobj \<Rightarrow> error + int" where
  "py_len (PyStr s) = Inr (int (length s))"
| "py_len (PyTuple xs) = Inr (int (length xs))"
| "py_len (PyList xs) = Inr (int (length xs))"
| "py_len PyNone = Inl (TypeError, ''object of type 'NoneType' has no len()'')"
| "py_len (PyInt _) = Inl (TypeError, ''object of type 'int' has no len()'')"
| "py_len (PyFloat _) = Inl (TypeError, ''object of type 'float' has no len()'')"
| "py_len (PyBHNode _ _) = Inl (TypeError, ''object of type 'BHNode' has no len()'')"

text \<open>
  \<^verbatim>\<open>x[i]\<close> for a non-negative literal index \<open>i\<close>: an item of a tuple or list, a
  one-character string of a string.
\<close>

definition item_at :: "'a list \<Rightarrow> nat \<Rightarrow> string \<Rightarrow> error + 'a" where
  "item_at xs i msg = (if i < length xs then Inr (xs ! i) else Inl (IndexError, msg))"

fun py_getitem :: "pyobj \<Rightarrow> nat \<Rightarrow> error + pyobj" where
  "py_getitem (PyStr s) i =
     (case item_at s i ''string index out of range'' of
        Inl e \<Rightarrow> Inl e
      | Inr c \<Rightarrow> Inr (PyStr [c]))"
| "py_getitem (PyTuple xs) i = item_at xs i ''tuple index out of range''"
| "py_getitem (PyList xs) i = item_at xs i ''list index out of range''"
| "py_getitem _ i = Inl (TypeError, ''object is not subscriptable'')"

text \<open>\<^verbatim>\<open>range(start, stop, -1)\<close>\<close>

function range_down :: "int \<Rightarrow> int \<Rightarrow> int list" where
  "range_down start stop =
     (if start > stop then start # range_down (start - 1) stop else [])"
  by pat_completeness auto
termination
  by (relation "measure (\<lambda>(start, stop). nat (start - stop))") auto

declare range_down.simps [simp del]

text \<open>
  A \<^verbatim>\<open>for\<close> loop over a list of indices whose body is a method call: the first
  exception leaves the loop.
\<close>

fun for_each :: "(int \<Rightarrow> 's \<Rightarrow> (error + unit) \<times> 's) \<Rightarrow> int list \<Rightarrow> 's \<Rightarrow> (error + unit) \<times> 's" where
  "for_each body [] s = (Inr (), s)"
| "for_each body (i # is) s =
     (case body i s of
        (Inl e, s') \<Rightarrow> (Inl e, s')
      | (Inr _, s') \<Rightarrow> for_each body is s')"

section \<open>The abstract class \<^verbatim>\<open>BinaryHeap\<close>\<close>

text \<open>
  An instance has the attribute \<^verbatim>\<open>heap\<close>; a subclass may add state of its own, which
  is the extension part of the record. A method takes the instance and returns what it
  returns or raises, together with the instance as the call leaves it.
\<close>

record BinaryHeap =
  heap :: "BHNode list"

type_synonym ('a, 'r) meth =
  "'a BinaryHeap_scheme \<Rightarrow> (error + 'r) \<times> 'a BinaryHeap_scheme"

text \<open>
  \<^verbatim>\<open>_push_down\<close> and \<^verbatim>\<open>_push_up\<close> are abstract: the subclass supplies them. The
  engine's methods take them as parameters.
\<close>

type_synonym 'a hook = "int \<Rightarrow> ('a, unit) meth"

text \<open>The bodies the abstract class itself gives the two hooks: \<^verbatim>\<open>pass\<close>.\<close>

definition BinaryHeap_push_down :: "'a hook" where
  "BinaryHeap_push_down i self = (Inr (), self)"

definition BinaryHeap_push_up :: "'a hook" where
  "BinaryHeap_push_up i self = (Inr (), self)"

text \<open>\<^verbatim>\<open>_create_list_of_heap_nodes\<close>, with the list \<^verbatim>\<open>nodes\<close> built so far.\<close>

fun create_nodes :: "pyobj list \<Rightarrow> BHNode list \<Rightarrow> error + BHNode list" where
  "create_nodes [] nodes = Inr nodes"
| "create_nodes (x # ls) nodes =
     (if is_int_or_float x then
        (case BHNode_init x PyNone of
           Inl e \<Rightarrow> Inl e
         | Inr n \<Rightarrow> create_nodes ls (nodes @ [n]))
      else
        (case py_len x of
           Inl e \<Rightarrow> Inl e
         | Inr l \<Rightarrow>
             if l \<noteq> 2 then Inl (ValueError, ''x should be a tuple or list of 2 elements.'')
             else
               (case py_getitem x 0 of
                  Inl e \<Rightarrow> Inl e
                | Inr x0 \<Rightarrow>
                    if x0 = PyNone then Inl (ValueError, ''keys or values cannot be None.'')
                    else
                      (case py_getitem x 1 of
                         Inl e \<Rightarrow> Inl e
                       | Inr x1 \<Rightarrow>
                           if x1 = PyNone
                           then Inl (ValueError, ''keys or values cannot be None.'')
                           else
                             (case BHNode_init x0 x1 of
                                Inl e \<Rightarrow> Inl e
                              | Inr n \<Rightarrow> create_nodes ls (nodes @ [n]))))))"

definition create_list_of_heap_nodes :: "pyobj list \<Rightarrow> error + BHNode list" where
  "create_list_of_heap_nodes ls = create_nodes ls []"

text \<open>\<^verbatim>\<open>_build_heap\<close>\<close>

definition build_heap :: "'a hook \<Rightarrow> ('a, unit) meth" where
  "build_heap push_down self =
     (if heap self \<noteq> []
      then for_each push_down (range_down (int (length (heap self)) div 2) (- 1)) self
      else (Inr (), self))"

text \<open>
  \<^verbatim>\<open>__init__(self, ls=None)\<close>: the attribute is assigned once the nodes have been
  created, then the heap is built.
\<close>

definition BinaryHeap_init :: "'a hook \<Rightarrow> pyobj list option \<Rightarrow> ('a, unit) meth" where
  "BinaryHeap_init push_down ls self =
     (case create_list_of_heap_nodes (case ls of None \<Rightarrow> [] | Some l \<Rightarrow> l) of
        Inl e \<Rightarrow> (Inl e, self)
      | Inr nodes \<Rightarrow> build_heap push_down (self\<lparr>heap := nodes\<rparr>))"

text \<open>\<^verbatim>\<open>size\<close>, \<^verbatim>\<open>is_empty\<close> and \<^verbatim>\<open>clear\<close>\<close>

definition size_heap :: "'a BinaryHeap_scheme \<Rightarrow> int" where
  "size_heap self = int (length (heap self))"

definition is_empty :: "'a BinaryHeap_scheme \<Rightarrow> bool" where
  "is_empty self \<longleftrightarrow> size_heap self = 0"

definition clear :: "('a, unit) meth" where
  "clear self = (Inr (), self\<lparr>heap := []\<rparr>)"

text \<open>
  The node an argument \<^verbatim>\<open>x\<close> that is not \<^verbatim>\<open>None\<close> stands for: itself when it is a
  \<^verbatim>\<open>BHNode\<close>, and \<^verbatim>\<open>BHNode(x)\<close> otherwise.
\<close>

fun as_node :: "pyobj \<Rightarrow> error + BHNode" where
  "as_node (PyBHNode k v) = Inr \<lparr>key = k, val = v\<rparr>"
| "as_node x = BHNode_init x PyNone"

text \<open>\<^verbatim>\<open>add\<close>\<close>

definition add :: "'a hook \<Rightarrow> pyobj \<Rightarrow> ('a, unit) meth" where
  "add push_up x self =
     (if x = PyNone then (Inl (ValueError, ''x cannot be None.''), self)
      else
        (case as_node x of
           Inl e \<Rightarrow> (Inl e, self)
         | Inr node \<Rightarrow>
             (let self' = self\<lparr>heap := heap self @ [node]\<rparr>
              in if size_heap self' > 1 then push_up (size_heap self' - 1) self'
                 else (Inr (), self'))))"

text \<open>\<^verbatim>\<open>for i, node in enumerate(...)\<close>: the first index whose node passes, or \<open>-1\<close>.\<close>

fun first_index :: "('n \<Rightarrow> bool) \<Rightarrow> int \<Rightarrow> 'n list \<Rightarrow> int" where
  "first_index p i [] = - 1"
| "first_index p i (node # nodes) = (if p node then i else first_index p (i + 1) nodes)"

text \<open>\<^verbatim>\<open>search\<close>, \<^verbatim>\<open>search_by_value\<close> and \<^verbatim>\<open>contains\<close>\<close>

definition search :: "(pyobj \<Rightarrow> pyobj \<Rightarrow> bool) \<Rightarrow> pyobj \<Rightarrow> ('a, int) meth" where
  "search eq x self =
     (if x = PyNone then (Inl (ValueError, ''x cannot be None.''), self)
      else
        (case as_node x of
           Inl e \<Rightarrow> (Inl e, self)
         | Inr x' \<Rightarrow> (Inr (first_index (\<lambda>node. BHNode_eq eq node x') 0 (heap self)), self)))"

definition search_by_value :: "(pyobj \<Rightarrow> pyobj \<Rightarrow> bool) \<Rightarrow> pyobj \<Rightarrow> ('a, int) meth" where
  "search_by_value eq v self = (Inr (first_index (\<lambda>node. eq (val node) v) 0 (heap self)), self)"

definition contains :: "(pyobj \<Rightarrow> pyobj \<Rightarrow> bool) \<Rightarrow> pyobj \<Rightarrow> ('a, bool) meth" where
  "contains eq x self =
     (case search eq x self of
        (Inl e, self') \<Rightarrow> (Inl e, self')
      | (Inr i, self') \<Rightarrow> (Inr (i \<noteq> - 1), self'))"

text \<open>
  \<^verbatim>\<open>merge(self, o)\<close>: \<^verbatim>\<open>self.heap += o.heap\<close> extends the receiver's list by the
  items of the donor's list as it is when the statement runs; \<open>o_heap\<close> is that list.
\<close>

definition merge :: "'a hook \<Rightarrow> BHNode list \<Rightarrow> ('a, unit) meth" where
  "merge push_down o_heap self = build_heap push_down (self\<lparr>heap := heap self @ o_heap\<rparr>)"

text \<open>
  Two heaps may be one object. A store maps each object reference to the instance it
  denotes; \<^verbatim>\<open>self.merge(o)\<close> reads the donor from the store and writes the receiver
  back. The receiver's hooks work on the receiver.
\<close>

type_synonym 'a store = "nat \<Rightarrow> 'a BinaryHeap_scheme"

definition merge_call :: "'a hook \<Rightarrow> nat \<Rightarrow> nat \<Rightarrow> 'a store \<Rightarrow> (error + unit) \<times> 'a store" where
  "merge_call push_down self other st =
     (case merge push_down (heap (st other)) (st self) of
        (r, self') \<Rightarrow> (r, st(self := self')))"

section \<open>Index arithmetic\<close>

text \<open>\<^verbatim>\<open>isinstance(i, int)\<close>\<close>

fun is_int :: "pyobj \<Rightarrow> bool" where
  "is_int (PyInt _) = True"
| "is_int _ = False"

text \<open>
  \<^verbatim>\<open>_is_good_index\<close>: an index that is not an \<^verbatim>\<open>int\<close> raises \<^verbatim>\<open>TypeError\<close>; for an
  \<^verbatim>\<open>int\<close> the answer is \<open>index_in_range\<close>, the last line of the method.
\<close>

definition index_in_range :: "int \<Rightarrow> 'a BinaryHeap_scheme \<Rightarrow> bool" where
  "index_in_range i self = (if i < 0 \<or> i \<ge> size_heap self then False else True)"

definition is_good_index :: "pyobj \<Rightarrow> 'a BinaryHeap_scheme \<Rightarrow> error + bool" where
  "is_good_index i self =
     (if \<not> is_int i then Inl (TypeError, ''indexes can only be int.'')
      else (case i of PyInt n \<Rightarrow> Inr (index_in_range n self)
            | _ \<Rightarrow> Inl (TypeError, ''indexes can only be int.'')))"

text \<open>
  Floats are read as the real numbers they denote. \<^verbatim>\<open>x % y\<close> on floats with a positive
  \<open>y\<close> is \<open>x\<close> minus the largest multiple of \<open>y\<close> not above it, and \<^verbatim>\<open>int(x)\<close>
  drops the fraction, towards zero. Both are exact on floats; the rounding of the
  arithmetic is in the library's logarithm alone, which is a parameter: \<open>log2 n\<close> is the
  float that \<^verbatim>\<open>math.log2(n)\<close> returns.
\<close>

definition float_mod :: "real \<Rightarrow> real \<Rightarrow> real" where
  "float_mod x y = x - y * of_int \<lfloor>x / y\<rfloor>"

definition int_of_float :: "real \<Rightarrow> int" where
  "int_of_float x = (if x \<ge> 0 then \<lfloor>x\<rfloor> else \<lceil>x\<rceil>)"

text \<open>\<^verbatim>\<open>_is_on_even_level\<close> and \<^verbatim>\<open>_is_on_odd_level\<close>\<close>

definition is_on_even_level :: "(int \<Rightarrow> real) \<Rightarrow> pyobj \<Rightarrow> ('a, bool) meth" where
  "is_on_even_level log2 i self =
     (case is_good_index i self of
        Inl e \<Rightarrow> (Inl e, self)
      | Inr good \<Rightarrow>
          if \<not> good then (Inl (IndexError, ''i is not a valid index.''), self)
          else
            (case i of
               PyInt n \<Rightarrow> (Inr (int_of_float (float_mod (log2 (n + 1)) 2) = 0), self)
             | _ \<Rightarrow> (Inl (TypeError, ''indexes can only be int.''), self)))"


section \<open>The tree renderer\<close>

text \<open>
  \<^verbatim>\<open>str.center(width, fillchar)\<close>: when the padding is odd, the extra fill character
  goes to the left exactly when the width is odd too.
\<close>

definition center :: "string \<Rightarrow> int \<Rightarrow> char \<Rightarrow> string" where
  "center s width fill =
     (let marg = width - int (length s)
      in if marg \<le> 0 then s
         else
           (let left = marg div 2 + (if odd marg \<and> odd width then 1 else 0)
            in replicate (nat left) fill @ s @ replicate (nat (marg - left)) fill))"

text \<open>\<^verbatim>\<open>2 ** row\<close>: an integer for \<open>row \<ge> 0\<close>, a float below.\<close>

definition two_to_the :: "int \<Rightarrow> real" where
  "two_to_the row = (if row \<ge> 0 then 2 ^ nat row else 1 / 2 ^ nat (- row))"

text \<open>
  The loop of \<^verbatim>\<open>build_pretty_binary_heap\<close> from index \<open>i\<close> on, with the text written
  so far and \<^verbatim>\<open>last_row\<close>. \<open>log_2 n\<close> is the float that \<^verbatim>\<open>math.log(n, 2)\<close> returns
  and \<open>str\<close> is the text of a node.
\<close>

fun write_rows :: "(int \<Rightarrow> real) \<Rightarrow> ('n \<Rightarrow> string) \<Rightarrow> int \<Rightarrow> char \<Rightarrow> int \<Rightarrow> 'n list \<Rightarrow>
    string \<times> int \<Rightarrow> string \<times> int" where
  "write_rows log_2 str total_width fill i [] (output, last_row) = (output, last_row)"
| "write_rows log_2 str total_width fill i (heap_node # rest) (output, last_row) =
     (let row = (if i \<noteq> 0 then \<lfloor>log_2 (i + 1)\<rfloor> else 0);
          output1 = (if row \<noteq> last_row then output @ replicate 2 (CHR 0x0A) else output);
          columns = two_to_the row;
          column_width = \<lfloor>(of_int total_width * 3) / columns\<rfloor>;
          output2 = output1 @ center (str heap_node) column_width fill
      in write_rows log_2 str total_width fill (i + 1) rest (output2, row))"

text \<open>\<^verbatim>\<open>build_pretty_binary_heap(heap, total_width=36, fill=" ")\<close>, for a list \<^verbatim>\<open>heap\<close>.\<close>

definition build_pretty_binary_heap ::
    "(int \<Rightarrow> real) \<Rightarrow> ('n \<Rightarrow> string) \<Rightarrow> 'n list \<Rightarrow> int \<Rightarrow> char \<Rightarrow> string" where
  "build_pretty_binary_heap log_2 str heap_list total_width fill =
     (if length heap_list = 0 then ''Nothing to print: heap is empty.''
      else
        (let output = fst (write_rows log_2 str total_width fill 0 heap_list ([], - 1));
             s = output @ [CHR 0x0A];
             line_length = total_width + 15
         in s @ replicate (nat line_length) (CHR ''-'') @ [CHR 0x0A]))"

text \<open>\<^verbatim>\<open>BinaryHeap.__repr__\<close>\<close>

definition BinaryHeap_repr ::
    "(int \<Rightarrow> real) \<Rightarrow> (pyobj \<Rightarrow> string) \<Rightarrow> 'a BinaryHeap_scheme \<Rightarrow> string" where
  "BinaryHeap_repr log_2 py_str self =
     build_pretty_binary_heap log_2 (BHNode_str py_str) (heap self) 36 (CHR '' '')"

section \<open>Observing hook calls\<close>

text \<open>
  To state which hook calls a method makes, a hook is wrapped so that it also appends the
  index it is called with to a list kept beside the subclass's own state. The wrapped
  hook does to the heap what the hook does.
\<close>

definition recording :: "'a hook \<Rightarrow> (int list \<times> 'a) hook" where
  "recording f i self =
     (case f i \<lparr>heap = heap self, \<dots> = snd (BinaryHeap.more self)\<rparr> of
        (r, self') \<Rightarrow>
          (r, \<lparr>heap = heap self',
               \<dots> = (fst (BinaryHeap.more self) @ [i], BinaryHeap.more self')\<rparr>))"

definition calls :: "(int list \<times> 'a) BinaryHeap_scheme \<Rightarrow> int list" where
  "calls self = fst (BinaryHeap.more self)"

text \<open>The instance without the list of recorded calls.\<close>

definition unrecorded :: "(int list \<times> 'a) BinaryHeap_scheme \<Rightarrow> 'a BinaryHeap_scheme" where
  "unrecorded self = \<lparr>heap = heap self, \<dots> = snd (BinaryHeap.more self)\<rparr>"

text \<open>
  A hook that raises whenever it is called, as a hook does whose comparison of two keys
  raises.
\<close>

definition raising_hook :: "'a hook" where
  "raising_hook i self = (Inl (TypeError, ''unorderable keys''), self)"

section \<open>A min-first variant\<close>

text \<open>
  The concrete variants are not part of \<^verbatim>\<open>Heap.py\<close>. To run the engine on a policy
  that moves nodes, the hooks of a variant that keeps the smallest key first are given
  here, on keys that are integers.
\<close>

text \<open>\<^verbatim>\<open>>=\<close> on two \<^verbatim>\<open>int\<close> keys; the variant below is run on such keys only.\<close>

fun int_key_ge :: "pyobj \<Rightarrow> pyobj \<Rightarrow> bool" where
  "int_key_ge (PyInt a) (PyInt b) \<longleftrightarrow> a \<ge> b"
| "int_key_ge _ _ \<longleftrightarrow> True"

text \<open>\<^verbatim>\<open>h[i], h[j] = h[j], h[i]\<close>\<close>

definition swapped :: "'n list \<Rightarrow> nat \<Rightarrow> nat \<Rightarrow> 'n list" where
  "swapped h i j = h[i := h ! j, j := h ! i]"

text \<open>
  The index, among \<open>i\<close> and its children \<open>2i + 1\<close> and \<open>2i + 2\<close> where they exist, of the
  node with the smallest key.
\<close>

definition smallest_of :: "(pyobj \<Rightarrow> pyobj \<Rightarrow> bool) \<Rightarrow> int \<Rightarrow> 'a BinaryHeap_scheme \<Rightarrow> int" where
  "smallest_of ge i self =
     (let h = heap self;
          l = (if index_in_range (i * 2 + 1) self then i * 2 + 1 else - 1);
          r = (if index_in_range (i * 2 + 2) self then i * 2 + 2 else - 1);
          m = (if l \<noteq> - 1 \<and> BHNode_lt ge (h ! nat l) (h ! nat i) then l else i)
      in if r \<noteq> - 1 \<and> BHNode_lt ge (h ! nat r) (h ! nat m) then r else m)"

text \<open>
  Modelled from the spec: \<^verbatim>\<open>_push_down\<close> of the min-first variant, whose code is not in
  the sources. It restores the invariant downward from \<open>i\<close>: while a child has a smaller
  key than the node, the node is swapped with its smallest child. An invalid index raises
  \<^verbatim>\<open>IndexError\<close>, as the engine's index functions do.
\<close>

function MinHeap_push_down :: "(pyobj \<Rightarrow> pyobj \<Rightarrow> bool) \<Rightarrow> 'a hook" where
  "MinHeap_push_down ge i self =
     (if \<not> index_in_range i self then (Inl (IndexError, ''i is not a valid index.''), self)
      else
        (let m = smallest_of ge i self
         in if m \<noteq> i
            then MinHeap_push_down ge m (self\<lparr>heap := swapped (heap self) (nat m) (nat i)\<rparr>)
            else (Inr (), self)))"
  by pat_completeness auto
termination
proof (relation "measure (\<lambda>(ge, i, self). length (heap self) - nat i)")
  show "wf (measure (\<lambda>(ge :: pyobj \<Rightarrow> pyobj \<Rightarrow> bool, i, self :: 'a BinaryHeap_scheme).
      length (heap self) - nat i))"
    by simp
next
  fix ge :: "pyobj \<Rightarrow> pyobj \<Rightarrow> bool" and i :: int and self :: "'a BinaryHeap_scheme" and m
  assume good: "\<not> \<not> index_in_range i self" and m: "m = smallest_of ge i self" and "m \<noteq> i"
  have "m = i \<or> m = i * 2 + 1 \<and> index_in_range (i * 2 + 1) self
      \<or> m = i * 2 + 2 \<and> index_in_range (i * 2 + 2) self"
    unfolding m smallest_of_def Let_def
    by (cases "index_in_range (i * 2 + 1) self"; cases "index_in_range (i * 2 + 2) self"; simp)
  moreover from good have "0 \<le> i"
    by (simp add: index_in_range_def split: if_splits)
  ultimately have "i < m" and "index_in_range m self"
    using \<open>m \<noteq> i\<close> by auto
  with good have "nat i < nat m" and "nat m < length (heap self)"
    by (simp_all add: index_in_range_def size_heap_def split: if_splits)
  then have "length (heap self) - nat m < length (heap self) - nat i"
    by arith
  then show "((ge, m, self\<lparr>heap := swapped (heap self) (nat m) (nat i)\<rparr>), ge, i, self)
      \<in> measure (\<lambda>(ge, i, self). length (heap self) - nat i)"
    by (simp add: swapped_def)
qed

declare MinHeap_push_down.simps [simp del]

text \<open>
  Modelled from the spec: \<^verbatim>\<open>_push_up\<close> of the min-first variant, whose code is not in the
  sources. It restores the invariant upward from \<open>i\<close>: the node is swapped with its parent
  at \<open>(i - 1) div 2\<close> while its key is smaller than the parent's, and stops at the root.
\<close>

function MinHeap_push_up :: "(pyobj \<Rightarrow> pyobj \<Rightarrow> bool) \<Rightarrow> 'a hook" where
  "MinHeap_push_up ge i self =
     (if \<not> index_in_range i self then (Inl (IndexError, ''i is not a valid index.''), self)
      else
        (let h = heap self;
             p = (if i = 0 then - 1 else (i - 1) div 2)
         in if p \<noteq> - 1 \<and> BHNode_lt ge (h ! nat i) (h ! nat p)
            then MinHeap_push_up ge p (self\<lparr>heap := swapped h (nat i) (nat p)\<rparr>)
            else (Inr (), self)))"
  by pat_completeness auto
termination
proof (relation "measure (\<lambda>(ge, i, self). nat i)")
  show "wf (measure (\<lambda>(ge :: pyobj \<Rightarrow> pyobj \<Rightarrow> bool, i, self :: 'a BinaryHeap_scheme). nat i))"
    by simp
next
  fix ge :: "pyobj \<Rightarrow> pyobj \<Rightarrow> bool" and i :: int and self :: "'a BinaryHeap_scheme"
    and h p
  assume "\<not> \<not> index_in_range i self" and "p = (if i = 0 then - 1 else (i - 1) div 2)"
    and "p \<noteq> - 1 \<and> BHNode_lt ge (h ! nat i) (h ! nat p)"
  then have "0 < i" and "p = (i - 1) div 2"
    by (simp_all add: index_in_range_def split: if_splits)
  then show "((ge, p, self\<lparr>heap := swapped h (nat i) (nat p)\<rparr>), ge, i, self)
      \<in> measure (\<lambda>(ge, i, self). nat i)"
    by simp
qed

declare MinHeap_push_up.simps [simp del]

section \<open>Heaps in memory\<close>

text \<open>
  A heap instance holds a reference to a list object, and \<^verbatim>\<open>self.heap += o.heap\<close> changes
  the list object in place. To say what a call does to another heap, the list objects and
  the instances are kept in a memory: \<open>list_at\<close> gives the nodes of the list at an address,
  \<open>heap_attr\<close> the address in the attribute \<^verbatim>\<open>heap\<close> of an instance, \<open>made\<close> the
  instances that \<^verbatim>\<open>__init__\<close> has run on, and \<open>objects\<close> the number of list objects
  created so far, which is the address of the next one.
\<close>

record pymem =
  list_at :: "nat \<Rightarrow> BHNode list"
  heap_attr :: "nat \<Rightarrow> nat"
  made :: "nat set"
  objects :: nat

definition empty_memory :: pymem where
  "empty_memory = \<lparr>list_at = (\<lambda>a. []), heap_attr = (\<lambda>p. 0), made = {}, objects = 0\<rparr>"

text \<open>
  A hook is a method of the instance \<open>self\<close>; here it takes and returns the memory, so that
  what it touches is not fixed by its type.
\<close>

type_synonym mem_hook = "int \<Rightarrow> nat \<Rightarrow> pymem \<Rightarrow> (error + unit) \<times> pymem"

text \<open>\<^verbatim>\<open>_build_heap\<close> on the instance \<open>self\<close>\<close>

definition build_heap_in :: "mem_hook \<Rightarrow> nat \<Rightarrow> pymem \<Rightarrow> (error + unit) \<times> pymem" where
  "build_heap_in push_down self mem =
     (if list_at mem (heap_attr mem self) \<noteq> []
      then for_each (\<lambda>index. push_down index self)
             (range_down (int (length (list_at mem (heap_attr mem self))) div 2) (- 1)) mem
      else (Inr (), mem))"

text \<open>
  \<^verbatim>\<open>__init__\<close> on the instance \<open>self\<close>: \<^verbatim>\<open>_create_list_of_heap_nodes\<close> returns a new list
  object, which the attribute \<^verbatim>\<open>heap\<close> is set to.
\<close>

definition BinaryHeap_init_in ::
    "mem_hook \<Rightarrow> pyobj list option \<Rightarrow> nat \<Rightarrow> pymem \<Rightarrow> (error + unit) \<times> pymem" where
  "BinaryHeap_init_in push_down ls self mem =
     (case create_list_of_heap_nodes (case ls of None \<Rightarrow> [] | Some l \<Rightarrow> l) of
        Inl e \<Rightarrow> (Inl e, mem)
      | Inr nodes \<Rightarrow>
          build_heap_in push_down self
            (mem\<lparr>list_at := (list_at mem)(objects mem := nodes),
                 heap_attr := (heap_attr mem)(self := objects mem),
                 made := insert self (made mem),
                 objects := objects mem + 1\<rparr>))"

text \<open>
  \<^verbatim>\<open>merge\<close> on the instance \<open>self\<close> with the donor \<open>other\<close>: the list object of the
  receiver is extended in place by the items of the donor's list object, then the heap is
  built.
\<close>

definition merge_in :: "mem_hook \<Rightarrow> nat \<Rightarrow> nat \<Rightarrow> pymem \<Rightarrow> (error + unit) \<times> pymem" where
  "merge_in push_down self other mem =
     (let a = heap_attr mem self;
          b = heap_attr mem other
      in build_heap_in push_down self
           (mem\<lparr>list_at := (list_at mem)(a := list_at mem a @ list_at mem b)\<rparr>))"

text \<open>
  The contract of a hook on what it writes: the memory after a call differs from the
  memory before it in the receiver's list object at most.
\<close>

definition only_list_changed :: "nat \<Rightarrow> pymem \<Rightarrow> pymem \<Rightarrow> bool" where
  "only_list_changed a mem mem' \<longleftrightarrow> mem' = mem\<lparr>list_at := (list_at mem)(a := list_at mem' a)\<rparr>"

definition own_list_only :: "mem_hook \<Rightarrow> bool" where
  "own_list_only h \<longleftrightarrow>
     (\<forall>i self mem. only_list_changed (heap_attr mem self) mem (snd (h i self mem)))"

text \<open>A hook given on the instance's own state, run on the receiver's list object.\<close>

definition on_own_list :: "unit hook \<Rightarrow> mem_hook" where
  "on_own_list h i self mem =
     (case h i \<lparr>heap = list_at mem (heap_attr mem self)\<rparr> of
        (r, self') \<Rightarrow> (r, mem\<lparr>list_at := (list_at mem)(heap_attr mem self := heap self')\<rparr>))"

text \<open>
  Every heap has a list object of its own: the lists of the instances made so far are
  among the list objects created, and two instances never hold the same one. The
  constructor and \<^verbatim>\<open>merge\<close> keep it so (\<open>separate_init\<close>, \<open>separate_merge\<close> below).
\<close>

definition separate :: "pymem \<Rightarrow> bool" where
  "separate mem \<longleftrightarrow>
     (\<forall>p \<in> made mem. heap_attr mem p < objects mem) \<and>
     (\<forall>p \<in> made mem. \<forall>q \<in> made mem. p \<noteq> q \<longrightarrow> heap_attr mem p \<noteq> heap_attr mem q)"

text \<open>
  The memory after \<^verbatim>\<open>h0 = MinHeap([1, 2])\<close> and \<^verbatim>\<open>h1 = MinHeap([0, 5])\<close>, with the
  instances at \<open>0\<close> and \<open>1\<close>.
\<close>

definition two_heaps :: pymem where
  "two_heaps =
     snd (BinaryHeap_init_in (on_own_list (MinHeap_push_down int_key_ge)) (Some [PyInt 0, PyInt 5]) 1
       (snd (BinaryHeap_init_in (on_own_list (MinHeap_push_down int_key_ge))
          (Some [PyInt 1, PyInt 2]) 0 empty_memory)))"

section \<open>The min-first hooks only permute the list\<close>

lemma length_swapped [simp]: "length (swapped h i j) = length h"
  by (simp add: swapped_def)

lemma smallest_of_cases:
  "smallest_of ge i self = i \<or>
   smallest_of ge i self = i * 2 + 1 \<and> index_in_range (i * 2 + 1) self \<or>
   smallest_of ge i self = i * 2 + 2 \<and> index_in_range (i * 2 + 2) self"
  unfolding smallest_of_def Let_def
  by (cases "index_in_range (i * 2 + 1) self"; cases "index_in_range (i * 2 + 2) self"; simp)

lemma smallest_of_below:
  assumes "index_in_range i self" and "smallest_of ge i self \<noteq> i"
  shows "i < smallest_of ge i self \<and> index_in_range (smallest_of ge i self) self"
proof -
  from assms(1) have "0 \<le> i" by (simp add: index_in_range_def split: if_splits)
  with smallest_of_cases [of ge i self] assms(2) show ?thesis by auto
qed

lemma mset_swapped: "i < length h \<Longrightarrow> j < length h \<Longrightarrow> mset (swapped h i j) = mset h"
  unfolding swapped_def by (rule mset_swap)

lemma good_index_nat: "index_in_range i self \<Longrightarrow> nat i < length (heap self)"
  by (simp add: index_in_range_def size_heap_def nat_less_iff split: if_splits)

lemma good_index_swapped [simp]:
  "index_in_range j (self\<lparr>heap := swapped (heap self) a b\<rparr>) = index_in_range j self"
  by (simp add: index_in_range_def size_heap_def)

lemma MinHeap_push_down_mset: "mset (heap (snd (MinHeap_push_down ge i self))) = mset (heap self)"
proof (induction ge i self rule: MinHeap_push_down.induct)
  case (1 ge i self)
  show ?case
  proof (cases "index_in_range i self \<and> smallest_of ge i self \<noteq> i")
    case True
    then have "index_in_range (smallest_of ge i self) self"
      using smallest_of_below [of i self ge] by simp
    with True have "mset (swapped (heap self) (nat (smallest_of ge i self)) (nat i)) = mset (heap self)"
      by (simp add: mset_swapped good_index_nat)
    with True "1.IH" [of "smallest_of ge i self"] show ?thesis
      by (simp add: MinHeap_push_down.simps [of ge i self] Let_def)
  next
    case False
    then show ?thesis
      by (auto simp: MinHeap_push_down.simps [of ge i self])
  qed
qed

lemma MinHeap_push_down_returns:
  "index_in_range i self \<Longrightarrow> fst (MinHeap_push_down ge i self) = Inr ()"
proof (induction ge i self rule: MinHeap_push_down.induct)
  case (1 ge i self)
  show ?case
  proof (cases "smallest_of ge i self \<noteq> i")
    case True
    with "1.prems" have "index_in_range (smallest_of ge i self) self"
      using smallest_of_below [of i self ge] by simp
    with True "1.prems" "1.IH" [of "smallest_of ge i self"] show ?thesis
      by (simp add: MinHeap_push_down.simps [of ge i self] Let_def)
  next
    case False
    with "1.prems" show ?thesis
      by (simp add: MinHeap_push_down.simps [of ge i self] Let_def)
  qed
qed

lemma MinHeap_push_up_mset: "mset (heap (snd (MinHeap_push_up ge i self))) = mset (heap self)"
proof (induction ge i self rule: MinHeap_push_up.induct)
  case (1 ge i self)
  let ?p = "if i = 0 then - 1 else (i - 1) div 2"
  show ?case
  proof (cases "index_in_range i self \<and> ?p \<noteq> - 1 \<and>
      BHNode_lt ge (heap self ! nat i) (heap self ! nat ?p)")
    case True
    then have i: "nat i < length (heap self)" and "0 < i"
      by (auto simp: good_index_nat index_in_range_def split: if_splits)
    then have "nat ?p < length (heap self)" by auto
    with i have "mset (swapped (heap self) (nat i) (nat ?p)) = mset (heap self)"
      by (simp add: mset_swapped)
    with True "1.IH" [of "heap self" ?p] show ?thesis
      by (simp add: MinHeap_push_up.simps [of ge i self] Let_def)
  next
    case False
    then show ?thesis
      by (auto simp: MinHeap_push_up.simps [of ge i self] Let_def)
  qed
qed

lemma MinHeap_push_up_returns:
  "index_in_range i self \<Longrightarrow> fst (MinHeap_push_up ge i self) = Inr ()"
proof (induction ge i self rule: MinHeap_push_up.induct)
  case (1 ge i self)
  let ?p = "if i = 0 then - 1 else (i - 1) div 2"
  show ?case
  proof (cases "?p \<noteq> - 1 \<and> BHNode_lt ge (heap self ! nat i) (heap self ! nat ?p)")
    case True
    with "1.prems" have "index_in_range ?p self"
      by (auto simp: index_in_range_def size_heap_def split: if_splits)
    with True "1.prems" "1.IH" [of "heap self" ?p] show ?thesis
      by (simp add: MinHeap_push_up.simps [of ge i self] Let_def)
  next
    case False
    with "1.prems" show ?thesis
      by (auto simp: MinHeap_push_up.simps [of ge i self] Let_def)
  qed
qed

lemma MinHeap_push_down_length:
  "length (heap (snd (MinHeap_push_down ge i self))) = length (heap self)"
  using arg_cong [OF MinHeap_push_down_mset [of ge i self], of size] by simp

lemma MinHeap_push_up_length:
  "length (heap (snd (MinHeap_push_up ge i self))) = length (heap self)"
  using arg_cong [OF MinHeap_push_up_mset [of ge i self], of size] by simp

section \<open>Building the heap\<close>

lemma range_down_upto: "range_down a b = rev [b + 1..a]"
proof (induction a b rule: range_down.induct)
  case (1 start stop)
  show ?case
  proof (cases "start > stop")
    case True
    then have "[stop + 1..start] = [stop + 1..start - 1] @ [start]"
      by (simp add: upto_rec2)
    with True 1 show ?thesis
      by (simp add: range_down.simps [of start stop])
  next
    case False
    then show ?thesis
      by (simp add: range_down.simps [of start stop])
  qed
qed

lemma recording_same_run:
  "fst (recording f i self) = fst (f i (unrecorded self)) \<and>
   unrecorded (snd (recording f i self)) = snd (f i (unrecorded self))"
  by (simp add: recording_def unrecorded_def split: prod.splits)

lemma for_each_recording_same_run:
  "fst (for_each (recording f) js s) = fst (for_each f js (unrecorded s)) \<and>
   unrecorded (snd (for_each (recording f) js s)) = snd (for_each f js (unrecorded s))"
proof (induction js arbitrary: s)
  case Nil
  show ?case by simp
next
  case (Cons j js)
  obtain r s' where run: "recording f j s = (r, s')"
    by (cases "recording f j s")
  with recording_same_run [of f j s] have "f j (unrecorded s) = (r, unrecorded s')"
    by (simp add: prod_eq_iff)
  with run Cons.IH [of s'] show ?case
    by (cases r) simp_all
qed

lemma for_each_recording_calls:
  "fst (for_each (recording pd) js s) = Inr () \<Longrightarrow>
   calls (snd (for_each (recording pd) js s)) = calls s @ js"
proof (induction js arbitrary: s)
  case Nil
  then show ?case by simp
next
  case (Cons j js)
  obtain r s' where run: "recording pd j s = (r, s')"
    by (cases "recording pd j s")
  then have log: "calls s' = calls s @ [j]"
    by (auto simp: recording_def calls_def split: prod.splits)
  show ?case
  proof (cases r)
    case (Inl e)
    with run Cons.prems show ?thesis by simp
  next
    case (Inr u)
    with run Cons.prems have "fst (for_each (recording pd) js s') = Inr ()" by simp
    from Cons.IH [OF this] run Inr log show ?thesis by simp
  qed
qed

lemma build_heap_recording:
  assumes "fst (build_heap (recording pd) s) = Inr ()"
  shows "calls (snd (build_heap (recording pd) s)) =
         calls s @ (if heap s = [] then [] else rev [0..int (length (heap s) div 2)])"
proof (cases "heap s = []")
  case True
  then show ?thesis by (simp add: build_heap_def)
next
  case False
  have idx: "int (length (heap s)) div 2 = int (length (heap s) div 2)" by simp
  from False assms
  have "fst (for_each (recording pd) (range_down (int (length (heap s)) div 2) (- 1)) s) = Inr ()"
    by (simp add: build_heap_def)
  from for_each_recording_calls [OF this] False show ?thesis
    by (simp add: build_heap_def range_down_upto idx del: of_nat_div)
qed

text \<open>
  Claim C1. Building the heap calls the variant's \<^verbatim>\<open>_push_down\<close> once for each index
  from \<open>n div 2\<close> down to \<open>0\<close>, in that order, where \<open>n\<close> is the length of the
  node list: a build that returns has made exactly these calls, on its own, at construction
  (over the nodes created from the collection) and in \<^verbatim>\<open>merge\<close> (over the two lists
  joined). On an empty list no call is made and the instance is returned as it was,
  whatever the hook.
\<close>

theorem build_heap_calls:
  "(fst (build_heap (recording pd) s) = Inr () \<longrightarrow>
      calls (snd (build_heap (recording pd) s)) =
        calls s @ (if heap s = [] then [] else rev [0..int (length (heap s) div 2)])) \<and>
   (heap t = [] \<longrightarrow> build_heap push_down t = (Inr (), t)) \<and>
   (create_list_of_heap_nodes ls = Inr nodes \<longrightarrow>
      fst (BinaryHeap_init (recording pd) (Some ls) s) = Inr () \<longrightarrow>
      calls (snd (BinaryHeap_init (recording pd) (Some ls) s)) =
        calls s @ (if nodes = [] then [] else rev [0..int (length nodes div 2)])) \<and>
   (fst (merge (recording pd) o_heap s) = Inr () \<longrightarrow>
      calls (snd (merge (recording pd) o_heap s)) =
        calls s @ (if heap s @ o_heap = [] then []
                   else rev [0..int ((length (heap s) + length o_heap) div 2)]))"
proof (intro conjI impI)
  assume "fst (build_heap (recording pd) s) = Inr ()"
  then show "calls (snd (build_heap (recording pd) s)) =
        calls s @ (if heap s = [] then [] else rev [0..int (length (heap s) div 2)])"
    by (rule build_heap_recording)
next
  assume "heap t = []"
  then show "build_heap push_down t = (Inr (), t)"
    by (simp add: build_heap_def)
next
  assume c: "create_list_of_heap_nodes ls = Inr nodes"
    and ok: "fst (BinaryHeap_init (recording pd) (Some ls) s) = Inr ()"
  from c ok have "fst (build_heap (recording pd) (s\<lparr>heap := nodes\<rparr>)) = Inr ()"
    by (simp add: BinaryHeap_init_def)
  from build_heap_recording [OF this] c
  show "calls (snd (BinaryHeap_init (recording pd) (Some ls) s)) =
        calls s @ (if nodes = [] then [] else rev [0..int (length nodes div 2)])"
    by (simp add: BinaryHeap_init_def calls_def)
next
  assume "fst (merge (recording pd) o_heap s) = Inr ()"
  then have "fst (build_heap (recording pd) (s\<lparr>heap := heap s @ o_heap\<rparr>)) = Inr ()"
    by (simp add: merge_def)
  from build_heap_recording [OF this]
  show "calls (snd (merge (recording pd) o_heap s)) =
        calls s @ (if heap s @ o_heap = [] then []
                   else rev [0..int ((length (heap s) + length o_heap) div 2)])"
    by (simp add: merge_def calls_def)
qed


theorem build_heap_calls_witness:
  "calls (snd (build_heap (recording (MinHeap_push_down int_key_ge))
      \<lparr>heap = [\<lparr>key = PyInt 5, val = PyInt 5\<rparr>, \<lparr>key = PyInt 3, val = PyInt 3\<rparr>,
               \<lparr>key = PyInt 8, val = PyInt 8\<rparr>, \<lparr>key = PyInt 1, val = PyInt 1\<rparr>,
               \<lparr>key = PyInt 4, val = PyInt 4\<rparr>], \<dots> = ([], ())\<rparr>)) = [2, 1, 0] \<and>
   heap (snd (build_heap (recording (MinHeap_push_down int_key_ge))
      \<lparr>heap = [\<lparr>key = PyInt 5, val = PyInt 5\<rparr>, \<lparr>key = PyInt 3, val = PyInt 3\<rparr>,
               \<lparr>key = PyInt 8, val = PyInt 8\<rparr>, \<lparr>key = PyInt 1, val = PyInt 1\<rparr>,
               \<lparr>key = PyInt 4, val = PyInt 4\<rparr>], \<dots> = ([], ())\<rparr>)) =
     [\<lparr>key = PyInt 1, val = PyInt 1\<rparr>, \<lparr>key = PyInt 3, val = PyInt 3\<rparr>,
      \<lparr>key = PyInt 8, val = PyInt 8\<rparr>, \<lparr>key = PyInt 5, val = PyInt 5\<rparr>,
      \<lparr>key = PyInt 4, val = PyInt 4\<rparr>] \<and>
   build_heap raising_hook \<lparr>heap = []\<rparr> = (Inr (), \<lparr>heap = []\<rparr>) \<and>
   calls (snd (BinaryHeap_init (recording (MinHeap_push_down int_key_ge))
      (Some [PyInt 7, PyTuple [PyInt 2, PyStr ''b'']]) \<lparr>heap = [], \<dots> = ([], ())\<rparr>)) = [1, 0] \<and>
   calls (snd (merge (recording (MinHeap_push_down int_key_ge)) [\<lparr>key = PyInt 0, val = PyInt 0\<rparr>]
      \<lparr>heap = [\<lparr>key = PyInt 1, val = PyInt 1\<rparr>, \<lparr>key = PyInt 2, val = PyInt 2\<rparr>],
       \<dots> = ([], ())\<rparr>)) = [1, 0]"
proof -
  let ?pd = "MinHeap_push_down int_key_ge :: unit hook"
  let ?s = "\<lparr>heap = [\<lparr>key = PyInt 5, val = PyInt 5\<rparr>, \<lparr>key = PyInt 3, val = PyInt 3\<rparr>,
               \<lparr>key = PyInt 8, val = PyInt 8\<rparr>, \<lparr>key = PyInt 1, val = PyInt 1\<rparr>,
               \<lparr>key = PyInt 4, val = PyInt 4\<rparr>], \<dots> = ([] :: int list, ())\<rparr>"
  let ?e = "\<lparr>heap = [], \<dots> = ([] :: int list, ())\<rparr>"
  let ?m = "\<lparr>heap = [\<lparr>key = PyInt 1, val = PyInt 1\<rparr>, \<lparr>key = PyInt 2, val = PyInt 2\<rparr>],
       \<dots> = ([] :: int list, ())\<rparr>"
  let ?ls = "[PyInt 7, PyTuple [PyInt 2, PyStr ''b'']]"
  let ?nodes = "[\<lparr>key = PyInt 7, val = PyInt 7\<rparr>, \<lparr>key = PyInt 2, val = PyStr ''b''\<rparr>]"
  let ?o = "[\<lparr>key = PyInt 0, val = PyInt 0\<rparr>]"
  let ?f = "raising_hook :: unit hook"
  have run: "build_heap (recording ?pd) ?s =
     (Inr (),
      \<lparr>heap = [\<lparr>key = PyInt 1, val = PyInt 1\<rparr>, \<lparr>key = PyInt 3, val = PyInt 3\<rparr>,
               \<lparr>key = PyInt 8, val = PyInt 8\<rparr>, \<lparr>key = PyInt 5, val = PyInt 5\<rparr>,
               \<lparr>key = PyInt 4, val = PyInt 4\<rparr>], \<dots> = ([2, 1, 0], ())\<rparr>)"
    by code_simp
  then have h1: "fst (build_heap (recording ?pd) ?s) = Inr ()" by simp
  have h2: "heap \<lparr>heap = []\<rparr> = []" by simp
  have h3: "create_list_of_heap_nodes ?ls = Inr ?nodes"
    by (simp add: create_list_of_heap_nodes_def BHNode_init_def item_at_def)
  have h4: "fst (BinaryHeap_init (recording ?pd) (Some ?ls) ?e) = Inr ()"
    by code_simp
  have h5: "fst (merge (recording ?pd) ?o ?m) = Inr ()"
    by code_simp
  from build_heap_calls [of ?pd ?s "\<lparr>heap = []\<rparr>" ?f ?ls ?nodes ?o] h1 h2
  have c1: "calls (snd (build_heap (recording ?pd) ?s)) = [2, 1, 0]"
    and c2: "build_heap ?f \<lparr>heap = []\<rparr> = (Inr (), \<lparr>heap = []\<rparr>)"
    by (simp_all add: calls_def upto.simps)
  from build_heap_calls [of ?pd ?e "\<lparr>heap = []\<rparr>" ?f ?ls ?nodes ?o] h3 h4
  have c3: "calls (snd (BinaryHeap_init (recording ?pd) (Some ?ls) ?e)) = [1, 0]"
    by (simp add: calls_def upto.simps)
  from build_heap_calls [of ?pd ?m "\<lparr>heap = []\<rparr>" ?f ?ls ?nodes ?o] h5
  have c4: "calls (snd (merge (recording ?pd) ?o ?m)) = [1, 0]"
    by (simp add: calls_def upto.simps)
  from run have c1': "heap (snd (build_heap (recording ?pd) ?s)) =
     [\<lparr>key = PyInt 1, val = PyInt 1\<rparr>, \<lparr>key = PyInt 3, val = PyInt 3\<rparr>,
      \<lparr>key = PyInt 8, val = PyInt 8\<rparr>, \<lparr>key = PyInt 5, val = PyInt 5\<rparr>,
      \<lparr>key = PyInt 4, val = PyInt 4\<rparr>]"
    by simp
  from c1 c1' c2 c3 c4 show ?thesis by simp
qed

section \<open>Adding a node\<close>

lemma as_node_not_None:
  "x \<noteq> PyNone \<Longrightarrow>
   as_node x = Inr (case x of PyBHNode k v \<Rightarrow> \<lparr>key = k, val = v\<rparr> | _ \<Rightarrow> \<lparr>key = x, val = x\<rparr>)"
  by (cases x) (simp_all add: BHNode_init_def)

text \<open>
  Claim C2. \<^verbatim>\<open>add(None)\<close> raises \<^verbatim>\<open>ValueError\<close> and leaves the heap as it was. For
  every other argument \<open>x\<close>, the node is \<open>x\<close> itself when \<open>x\<close> is a \<^verbatim>\<open>BHNode\<close> and
  a fresh node with key and value \<open>x\<close> otherwise; \<^verbatim>\<open>add\<close> puts it at index
  \<^verbatim>\<open>size()\<close>, the end of the list, and then calls \<^verbatim>\<open>_push_up\<close>, once and on the last
  index, exactly when the list now has more than one node. With a hook that keeps the
  length of the list, \<^verbatim>\<open>size()\<close> has grown by one.
\<close>

theorem add_appends:
  fixes push_up :: "'a hook" and self :: "'a BinaryHeap_scheme"
    and s :: "(int list \<times> 'a) BinaryHeap_scheme"
  shows
  "add push_up PyNone self = (Inl (ValueError, ''x cannot be None.''), self) \<and>
   (x \<noteq> PyNone \<longrightarrow>
      (let node = (case x of PyBHNode k v \<Rightarrow> \<lparr>key = k, val = v\<rparr> | _ \<Rightarrow> \<lparr>key = x, val = x\<rparr>);
           self' = self\<lparr>heap := heap self @ [node]\<rparr>
       in heap self' ! nat (size_heap self) = node \<and>
          add push_up x self =
            (if size_heap self' > 1 then push_up (size_heap self' - 1) self' else (Inr (), self')) \<and>
          calls (snd (add (recording push_up) x s)) =
            calls s @ (if size_heap s + 1 > 1 then [size_heap s] else []) \<and>
          ((\<forall>i t. length (heap (snd (push_up i t))) = length (heap t)) \<longrightarrow>
             size_heap (snd (add push_up x self)) = size_heap self + 1)))"
proof (intro conjI impI)
  show "add push_up PyNone self = (Inl (ValueError, ''x cannot be None.''), self)"
    by (simp add: add_def)
next
  assume x: "x \<noteq> PyNone"
  let ?node = "case x of PyBHNode k v \<Rightarrow> \<lparr>key = k, val = v\<rparr> | _ \<Rightarrow> \<lparr>key = x, val = x\<rparr>"
  let ?self' = "self\<lparr>heap := heap self @ [?node]\<rparr>"
  have at: "heap ?self' ! nat (size_heap self) = ?node"
    by (simp add: size_heap_def)
  have eq: "add push_up x self =
      (if size_heap ?self' > 1 then push_up (size_heap ?self' - 1) ?self' else (Inr (), ?self'))"
    using x by (simp add: add_def as_node_not_None Let_def)
  have log: "calls (snd (add (recording push_up) x s)) =
      calls s @ (if size_heap s + 1 > 1 then [size_heap s] else [])"
    using x by (simp add: add_def as_node_not_None Let_def size_heap_def recording_def calls_def
        split: prod.splits)
  have len: "(\<forall>i t. length (heap (snd (push_up i t))) = length (heap t)) \<longrightarrow>
      size_heap (snd (add push_up x self)) = size_heap self + 1"
  proof
    assume h: "\<forall>i t. length (heap (snd (push_up i t))) = length (heap t)"
    then have "length (heap (snd (push_up (size_heap ?self' - 1) ?self'))) = length (heap ?self')"
      by blast
    with eq show "size_heap (snd (add push_up x self)) = size_heap self + 1"
      by (simp add: size_heap_def)
  qed
  from at eq log len
  show "let node = ?node; self' = self\<lparr>heap := heap self @ [node]\<rparr>
       in heap self' ! nat (size_heap self) = node \<and>
          add push_up x self =
            (if size_heap self' > 1 then push_up (size_heap self' - 1) self' else (Inr (), self')) \<and>
          calls (snd (add (recording push_up) x s)) =
            calls s @ (if size_heap s + 1 > 1 then [size_heap s] else []) \<and>
          ((\<forall>i t. length (heap (snd (push_up i t))) = length (heap t)) \<longrightarrow>
             size_heap (snd (add push_up x self)) = size_heap self + 1)"
    by (simp add: Let_def)
qed

theorem add_appends_witness:
  "add (MinHeap_push_up int_key_ge) (PyInt 0)
     \<lparr>heap = [\<lparr>key = PyInt 1, val = PyInt 1\<rparr>, \<lparr>key = PyInt 3, val = PyInt 3\<rparr>,
              \<lparr>key = PyInt 8, val = PyInt 8\<rparr>]\<rparr> =
     (Inr (), \<lparr>heap = [\<lparr>key = PyInt 0, val = PyInt 0\<rparr>, \<lparr>key = PyInt 1, val = PyInt 1\<rparr>,
                       \<lparr>key = PyInt 8, val = PyInt 8\<rparr>, \<lparr>key = PyInt 3, val = PyInt 3\<rparr>]\<rparr>) \<and>
   calls (snd (add (recording (MinHeap_push_up int_key_ge)) (PyBHNode (PyInt 0) (PyStr ''c''))
     \<lparr>heap = [\<lparr>key = PyInt 1, val = PyInt 1\<rparr>, \<lparr>key = PyInt 3, val = PyInt 3\<rparr>,
              \<lparr>key = PyInt 8, val = PyInt 8\<rparr>], \<dots> = ([], ())\<rparr>)) = [3] \<and>
   calls (snd (add (recording (MinHeap_push_up int_key_ge)) (PyInt 0)
     \<lparr>heap = [], \<dots> = ([], ())\<rparr>)) = [] \<and>
   size_heap (snd (add (MinHeap_push_up int_key_ge) (PyInt 0)
     \<lparr>heap = [\<lparr>key = PyInt 1, val = PyInt 1\<rparr>, \<lparr>key = PyInt 3, val = PyInt 3\<rparr>,
              \<lparr>key = PyInt 8, val = PyInt 8\<rparr>]\<rparr>)) = 4"
proof -
  let ?pu = "MinHeap_push_up int_key_ge :: unit hook"
  let ?self = "\<lparr>heap = [\<lparr>key = PyInt 1, val = PyInt 1\<rparr>, \<lparr>key = PyInt 3, val = PyInt 3\<rparr>,
              \<lparr>key = PyInt 8, val = PyInt 8\<rparr>]\<rparr>"
  let ?s = "\<lparr>heap = [\<lparr>key = PyInt 1, val = PyInt 1\<rparr>, \<lparr>key = PyInt 3, val = PyInt 3\<rparr>,
              \<lparr>key = PyInt 8, val = PyInt 8\<rparr>], \<dots> = ([] :: int list, ())\<rparr>"
  let ?e = "\<lparr>heap = [], \<dots> = ([] :: int list, ())\<rparr>"
  let ?n = "PyBHNode (PyInt 0) (PyStr ''c'')"
  have h1: "PyInt 0 \<noteq> PyNone" and h1': "?n \<noteq> PyNone"
    by simp_all
  have h2: "\<forall>i t. length (heap (snd (?pu i t))) = length (heap t)"
    by (simp add: MinHeap_push_up_length)
  have sift: "?pu 3 (?self\<lparr>heap := heap ?self @ [\<lparr>key = PyInt 0, val = PyInt 0\<rparr>]\<rparr>) =
      (Inr (), \<lparr>heap = [\<lparr>key = PyInt 0, val = PyInt 0\<rparr>, \<lparr>key = PyInt 1, val = PyInt 1\<rparr>,
                        \<lparr>key = PyInt 8, val = PyInt 8\<rparr>, \<lparr>key = PyInt 3, val = PyInt 3\<rparr>]\<rparr>)"
    by code_simp
  from add_appends [of ?pu ?self "PyInt 0" ?s] h1 h2
  have c1: "add ?pu (PyInt 0) ?self =
      (Inr (), \<lparr>heap = [\<lparr>key = PyInt 0, val = PyInt 0\<rparr>, \<lparr>key = PyInt 1, val = PyInt 1\<rparr>,
                        \<lparr>key = PyInt 8, val = PyInt 8\<rparr>, \<lparr>key = PyInt 3, val = PyInt 3\<rparr>]\<rparr>)"
    and c4: "size_heap (snd (add ?pu (PyInt 0) ?self)) = 4"
    using sift by (simp_all add: Let_def size_heap_def)
  from add_appends [of ?pu ?self ?n ?s] h1'
  have c2: "calls (snd (add (recording ?pu) ?n ?s)) = [3]"
    by (simp add: Let_def size_heap_def calls_def)
  from add_appends [of ?pu ?self "PyInt 0" ?e] h1
  have c3: "calls (snd (add (recording ?pu) (PyInt 0) ?e)) = []"
    by (simp add: Let_def size_heap_def calls_def)
  from c1 c2 c3 c4 show ?thesis by simp
qed

section \<open>Merging\<close>

lemma for_each_mset:
  assumes "\<forall>i t. mset (heap (snd (pd i t))) = mset (heap t)"
  shows "mset (heap (snd (for_each pd js s))) = mset (heap s)"
proof (induction js arbitrary: s)
  case Nil
  show ?case by simp
next
  case (Cons j js)
  obtain r s' where run: "pd j s = (r, s')" by (cases "pd j s")
  from assms have "mset (heap (snd (pd j s))) = mset (heap s)" by blast
  with run have step: "mset (heap s') = mset (heap s)" by simp
  show ?case
  proof (cases r)
    case (Inl e)
    with run step show ?thesis by simp
  next
    case (Inr u)
    with run step Cons.IH [of s'] show ?thesis by simp
  qed
qed

lemma build_heap_mset:
  assumes "\<forall>i t. mset (heap (snd (pd i t))) = mset (heap t)"
  shows "mset (heap (snd (build_heap pd s))) = mset (heap s)"
  using for_each_mset [OF assms] by (simp add: build_heap_def)

text \<open>
  Claim C3. \<^verbatim>\<open>self.merge(o)\<close> sets the receiver's list to its previous list followed by
  the donor's and runs \<^verbatim>\<open>_build_heap\<close> on the result; the two heaps may be the same
  object. With a hook that only permutes the list, the receiver then holds as many nodes
  as the two heaps held together, and its nodes are, as a multiset, the sum of the two.
\<close>

theorem merge_concatenates:
  "merge_call push_down self other st =
     (case build_heap push_down ((st self)\<lparr>heap := heap (st self) @ heap (st other)\<rparr>) of
        (r, self') \<Rightarrow> (r, st(self := self'))) \<and>
   ((\<forall>i t. mset (heap (snd (push_down i t))) = mset (heap t)) \<longrightarrow>
      size_heap (snd (merge_call push_down self other st) self) = size_heap (st self) + size_heap (st other) \<and>
      mset (heap (snd (merge_call push_down self other st) self)) =
        mset (heap (st self)) + mset (heap (st other)))"
proof (intro conjI impI)
  show "merge_call push_down self other st =
     (case build_heap push_down ((st self)\<lparr>heap := heap (st self) @ heap (st other)\<rparr>) of
        (r, self') \<Rightarrow> (r, st(self := self')))"
    by (simp add: merge_call_def merge_def)
next
  assume h: "\<forall>i t. mset (heap (snd (push_down i t))) = mset (heap t)"
  let ?joined = "(st self)\<lparr>heap := heap (st self) @ heap (st other)\<rparr>"
  have after: "snd (merge_call push_down self other st) self = snd (build_heap push_down ?joined)"
    by (simp add: merge_call_def merge_def split: prod.splits)
  from build_heap_mset [OF h, of ?joined]
  show m: "mset (heap (snd (merge_call push_down self other st) self)) =
        mset (heap (st self)) + mset (heap (st other))"
    by (simp add: after)
  from arg_cong [OF m, of size]
  show "size_heap (snd (merge_call push_down self other st) self) = size_heap (st self) + size_heap (st other)"
    by (simp add: size_heap_def)
qed

theorem merge_concatenates_witness:
  "snd (merge_call (MinHeap_push_down int_key_ge) 0 1
     ((\<lambda>r. \<lparr>heap = []\<rparr>)
        (0 :: nat := \<lparr>heap = [\<lparr>key = PyInt 1, val = PyInt 1\<rparr>, \<lparr>key = PyInt 2, val = PyInt 2\<rparr>]\<rparr>,
         1 := \<lparr>heap = [\<lparr>key = PyInt 0, val = PyInt 0\<rparr>, \<lparr>key = PyInt 5, val = PyInt 5\<rparr>]\<rparr>))) 0 =
     \<lparr>heap = [\<lparr>key = PyInt 0, val = PyInt 0\<rparr>, \<lparr>key = PyInt 2, val = PyInt 2\<rparr>,
              \<lparr>key = PyInt 1, val = PyInt 1\<rparr>, \<lparr>key = PyInt 5, val = PyInt 5\<rparr>]\<rparr> \<and>
   size_heap (snd (merge_call (MinHeap_push_down int_key_ge) 0 1
     ((\<lambda>r. \<lparr>heap = []\<rparr>)
        (0 :: nat := \<lparr>heap = [\<lparr>key = PyInt 1, val = PyInt 1\<rparr>, \<lparr>key = PyInt 2, val = PyInt 2\<rparr>]\<rparr>,
         1 := \<lparr>heap = [\<lparr>key = PyInt 0, val = PyInt 0\<rparr>, \<lparr>key = PyInt 5, val = PyInt 5\<rparr>]\<rparr>))) 0) = 4 \<and>
   mset (heap (snd (merge_call (MinHeap_push_down int_key_ge) 0 1
     ((\<lambda>r. \<lparr>heap = []\<rparr>)
        (0 :: nat := \<lparr>heap = [\<lparr>key = PyInt 1, val = PyInt 1\<rparr>, \<lparr>key = PyInt 2, val = PyInt 2\<rparr>]\<rparr>,
         1 := \<lparr>heap = [\<lparr>key = PyInt 0, val = PyInt 0\<rparr>, \<lparr>key = PyInt 5, val = PyInt 5\<rparr>]\<rparr>))) 0)) =
     {#\<lparr>key = PyInt 1, val = PyInt 1\<rparr>, \<lparr>key = PyInt 2, val = PyInt 2\<rparr>,
       \<lparr>key = PyInt 0, val = PyInt 0\<rparr>, \<lparr>key = PyInt 5, val = PyInt 5\<rparr>#}"
proof -
  let ?pd = "MinHeap_push_down int_key_ge :: unit hook"
  let ?st = "(\<lambda>r. \<lparr>heap = []\<rparr>)
        (0 :: nat := \<lparr>heap = [\<lparr>key = PyInt 1, val = PyInt 1\<rparr>, \<lparr>key = PyInt 2, val = PyInt 2\<rparr>]\<rparr>,
         1 := \<lparr>heap = [\<lparr>key = PyInt 0, val = PyInt 0\<rparr>, \<lparr>key = PyInt 5, val = PyInt 5\<rparr>]\<rparr>)"
  have h: "\<forall>i t. mset (heap (snd (?pd i t))) = mset (heap t)"
    by (simp add: MinHeap_push_down_mset)
  have build: "build_heap ?pd
      \<lparr>heap = [\<lparr>key = PyInt 1, val = PyInt 1\<rparr>, \<lparr>key = PyInt 2, val = PyInt 2\<rparr>,
               \<lparr>key = PyInt 0, val = PyInt 0\<rparr>, \<lparr>key = PyInt 5, val = PyInt 5\<rparr>]\<rparr> =
      (Inr (), \<lparr>heap = [\<lparr>key = PyInt 0, val = PyInt 0\<rparr>, \<lparr>key = PyInt 2, val = PyInt 2\<rparr>,
                        \<lparr>key = PyInt 1, val = PyInt 1\<rparr>, \<lparr>key = PyInt 5, val = PyInt 5\<rparr>]\<rparr>)"
    by code_simp
  note m = merge_concatenates [of ?pd 0 1 ?st]
  from m [THEN conjunct1] build
  have c1: "snd (merge_call ?pd 0 1 ?st) 0 =
      \<lparr>heap = [\<lparr>key = PyInt 0, val = PyInt 0\<rparr>, \<lparr>key = PyInt 2, val = PyInt 2\<rparr>,
               \<lparr>key = PyInt 1, val = PyInt 1\<rparr>, \<lparr>key = PyInt 5, val = PyInt 5\<rparr>]\<rparr>"
    by simp
  from m [THEN conjunct2, THEN mp, OF h]
  have c2: "size_heap (snd (merge_call ?pd 0 1 ?st) 0) = 4"
    and c3: "mset (heap (snd (merge_call ?pd 0 1 ?st) 0)) =
      {#\<lparr>key = PyInt 1, val = PyInt 1\<rparr>, \<lparr>key = PyInt 2, val = PyInt 2\<rparr>,
        \<lparr>key = PyInt 0, val = PyInt 0\<rparr>, \<lparr>key = PyInt 5, val = PyInt 5\<rparr>#}"
    by (simp_all add: size_heap_def)
  from c1 c2 c3 show ?thesis by simp
qed

lemma only_list_changed_refl: "only_list_changed a mem mem"
  by (simp add: only_list_changed_def)

lemma only_list_changed_trans:
  assumes "only_list_changed a m1 m2" and "only_list_changed a m2 m3"
  shows "only_list_changed a m1 m3"
proof -
  from assms(1) have m2: "m2 = m1\<lparr>list_at := (list_at m1)(a := list_at m2 a)\<rparr>"
    by (simp add: only_list_changed_def)
  from assms(2) have "m3 = m2\<lparr>list_at := (list_at m2)(a := list_at m3 a)\<rparr>"
    by (simp add: only_list_changed_def)
  then have "m3 = m1\<lparr>list_at := (list_at m1)(a := list_at m3 a)\<rparr>"
    by (subst (asm) (1 2) m2) simp
  then show ?thesis by (simp add: only_list_changed_def)
qed

lemma only_list_changed_attr:
  "only_list_changed a mem mem' \<Longrightarrow>
   heap_attr mem' = heap_attr mem \<and> made mem' = made mem \<and> objects mem' = objects mem \<and>
   (\<forall>b. b \<noteq> a \<longrightarrow> list_at mem' b = list_at mem b)"
proof -
  assume "only_list_changed a mem mem'"
  then have eq: "mem' = mem\<lparr>list_at := (list_at mem)(a := list_at mem' a)\<rparr>"
    by (simp add: only_list_changed_def)
  show ?thesis by (subst (1 2 3 4) eq) simp
qed

lemma own_list_only_on_own_list: "own_list_only (on_own_list h)"
  by (simp add: own_list_only_def on_own_list_def only_list_changed_def split: prod.splits)

lemma for_each_own_list:
  assumes "own_list_only h"
  shows "only_list_changed (heap_attr mem self) mem (snd (for_each (\<lambda>i. h i self) js mem))"
proof (induction js arbitrary: mem)
  case Nil
  show ?case by (simp add: only_list_changed_refl)
next
  case (Cons j js)
  obtain r m' where run: "h j self mem = (r, m')" by (cases "h j self mem")
  from assms have "only_list_changed (heap_attr mem self) mem (snd (h j self mem))"
    by (simp add: own_list_only_def)
  with run have step: "only_list_changed (heap_attr mem self) mem m'" by simp
  show ?case
  proof (cases r)
    case (Inl e)
    with run step show ?thesis by simp
  next
    case (Inr u)
    from only_list_changed_attr [OF step] have "heap_attr m' self = heap_attr mem self"
      by simp
    with Cons.IH [of m']
    have "only_list_changed (heap_attr mem self) m' (snd (for_each (\<lambda>i. h i self) js m'))"
      by simp
    from only_list_changed_trans [OF step this] run Inr show ?thesis by simp
  qed
qed

lemma build_heap_in_own_list:
  assumes "own_list_only h"
  shows "only_list_changed (heap_attr mem self) mem (snd (build_heap_in h self mem))"
  using for_each_own_list [OF assms] by (simp add: build_heap_in_def only_list_changed_refl)

lemma merge_in_own_list:
  assumes "own_list_only h"
  shows "only_list_changed (heap_attr mem self) mem (snd (merge_in h self other mem))"
proof -
  let ?mem' = "mem\<lparr>list_at := (list_at mem)(heap_attr mem self :=
      list_at mem (heap_attr mem self) @ list_at mem (heap_attr mem other))\<rparr>"
  have first: "only_list_changed (heap_attr mem self) mem ?mem'"
    by (simp add: only_list_changed_def)
  from build_heap_in_own_list [OF assms, of ?mem' self]
  have "only_list_changed (heap_attr mem self) ?mem' (snd (build_heap_in h self ?mem'))"
    by simp
  from only_list_changed_trans [OF first this] show ?thesis
    by (simp add: merge_in_def Let_def)
qed

lemma separate_empty: "separate empty_memory"
  by (simp add: separate_def empty_memory_def)

lemma separate_only_list_changed:
  "only_list_changed a mem mem' \<Longrightarrow> separate mem \<Longrightarrow> separate mem'"
  using only_list_changed_attr [of a mem mem'] by (simp add: separate_def)

lemma separate_init:
  assumes "own_list_only h" and "separate mem"
  shows "separate (snd (BinaryHeap_init_in h ls self mem))"
proof (cases "create_list_of_heap_nodes (case ls of None \<Rightarrow> [] | Some l \<Rightarrow> l)")
  case (Inl e)
  with assms(2) show ?thesis by (simp add: BinaryHeap_init_in_def)
next
  case (Inr nodes)
  let ?mem' = "mem\<lparr>list_at := (list_at mem)(objects mem := nodes),
                 heap_attr := (heap_attr mem)(self := objects mem),
                 made := insert self (made mem),
                 objects := objects mem + 1\<rparr>"
  from assms(2) have sep: "separate ?mem'"
    by (auto simp: separate_def less_Suc_eq)
  from build_heap_in_own_list [OF assms(1), of ?mem' self] sep
  have "separate (snd (build_heap_in h self ?mem'))"
    by (rule separate_only_list_changed)
  with Inr show ?thesis by (simp add: BinaryHeap_init_in_def)
qed

lemma separate_merge:
  assumes "own_list_only h" and "separate mem"
  shows "separate (snd (merge_in h self other mem))"
  using merge_in_own_list [OF assms(1)] assms(2) by (rule separate_only_list_changed)

text \<open>
  Claim C9. The two heaps are instances the constructor has made, so each has a list
  object of its own, and the hook writes the receiver's list only. When the donor is
  another instance than the receiver, \<^verbatim>\<open>merge\<close> leaves the donor's attribute and its list
  object as they were: the same nodes in the same order.
\<close>

theorem merge_leaves_donor:
  "own_list_only push_down \<and> separate mem \<and> self \<in> made mem \<and> other \<in> made mem \<and>
   self \<noteq> other \<longrightarrow>
     heap_attr (snd (merge_in push_down self other mem)) other = heap_attr mem other \<and>
     list_at (snd (merge_in push_down self other mem)) (heap_attr mem other) =
       list_at mem (heap_attr mem other)"
proof
  assume h: "own_list_only push_down \<and> separate mem \<and> self \<in> made mem \<and> other \<in> made mem \<and>
   self \<noteq> other"
  then have ne: "heap_attr mem other \<noteq> heap_attr mem self"
    by (auto simp: separate_def)
  from h have "only_list_changed (heap_attr mem self) mem (snd (merge_in push_down self other mem))"
    by (simp add: merge_in_own_list)
  from only_list_changed_attr [OF this] ne
  show "heap_attr (snd (merge_in push_down self other mem)) other = heap_attr mem other \<and>
     list_at (snd (merge_in push_down self other mem)) (heap_attr mem other) =
       list_at mem (heap_attr mem other)"
    by simp
qed

text \<open>
  The engine in memory does to the receiver's list what the engine does on the
  instance's own state.
\<close>

lemma on_own_list_step:
  "h j \<lparr>heap = list_at mem (heap_attr mem self)\<rparr> = (r, s1) \<Longrightarrow>
   on_own_list h j self mem = (r, mem\<lparr>list_at := (list_at mem)(heap_attr mem self := heap s1)\<rparr>)"
  by (simp add: on_own_list_def)

lemma list_at_same: "mem\<lparr>list_at := (list_at mem)(a := list_at mem a)\<rparr> = mem"
  by (cases mem) simp

lemma list_at_twice:
  "mem\<lparr>list_at := (list_at mem)(a := l1)\<rparr>\<lparr>list_at := ((list_at mem)(a := l1))(a := l2)\<rparr> =
   mem\<lparr>list_at := (list_at mem)(a := l2)\<rparr>"
  by (cases mem) simp

lemma for_each_on_own_list:
  "for_each (\<lambda>i. on_own_list h i self) js mem =
     (fst (for_each h js \<lparr>heap = list_at mem (heap_attr mem self)\<rparr>),
      mem\<lparr>list_at := (list_at mem)(heap_attr mem self :=
        heap (snd (for_each h js \<lparr>heap = list_at mem (heap_attr mem self)\<rparr>)))\<rparr>)"
proof (induction js arbitrary: mem)
  case Nil
  show ?case by (simp add: list_at_same)
next
  case (Cons j js)
  let ?a = "heap_attr mem self"
  obtain r s1 where run: "h j \<lparr>heap = list_at mem ?a\<rparr> = (r, s1)"
    by (cases "h j \<lparr>heap = list_at mem ?a\<rparr>")
  let ?m1 = "mem\<lparr>list_at := (list_at mem)(?a := heap s1)\<rparr>"
  note step = on_own_list_step [of h j mem self r s1, OF run]
  show ?case
  proof (cases r)
    case (Inl e)
    with run step show ?thesis by (simp add: fun_upd_def)
  next
    case (Inr u)
    have s1: "\<lparr>heap = list_at ?m1 (heap_attr ?m1 self)\<rparr> = s1" by simp
    have "for_each (\<lambda>i. on_own_list h i self) (j # js) mem =
        for_each (\<lambda>i. on_own_list h i self) js ?m1"
      using step Inr by simp
    also have "\<dots> = (fst (for_each h js s1),
        ?m1\<lparr>list_at := (list_at ?m1)(heap_attr ?m1 self := heap (snd (for_each h js s1)))\<rparr>)"
      by (subst Cons.IH [of ?m1]) (simp only: s1)
    also have "\<dots> = (fst (for_each h js s1),
        mem\<lparr>list_at := (list_at mem)(?a := heap (snd (for_each h js s1)))\<rparr>)"
      by simp
    also have "for_each h js s1 = for_each h (j # js) \<lparr>heap = list_at mem ?a\<rparr>"
      using run Inr by simp
    finally show ?thesis .
  qed
qed

lemma merge_in_by_value:
  "merge_in (on_own_list h) self other mem =
     (fst (merge h (list_at mem (heap_attr mem other)) \<lparr>heap = list_at mem (heap_attr mem self)\<rparr>),
      mem\<lparr>list_at := (list_at mem)(heap_attr mem self :=
        heap (snd (merge h (list_at mem (heap_attr mem other))
          \<lparr>heap = list_at mem (heap_attr mem self)\<rparr>)))\<rparr>)"
  by (simp add: merge_in_def merge_def build_heap_in_def build_heap_def for_each_on_own_list
      Let_def)

lemma two_heaps_eval:
  "made two_heaps = {0, Suc 0} \<and> heap_attr two_heaps 0 = 0 \<and>
   heap_attr two_heaps (Suc 0) = Suc 0 \<and>
   list_at two_heaps 0 = [\<lparr>key = PyInt 1, val = PyInt 1\<rparr>, \<lparr>key = PyInt 2, val = PyInt 2\<rparr>] \<and>
   list_at two_heaps (Suc 0) = [\<lparr>key = PyInt 0, val = PyInt 0\<rparr>, \<lparr>key = PyInt 5, val = PyInt 5\<rparr>]"
proof -
  have b1: "build_heap (MinHeap_push_down int_key_ge)
      \<lparr>heap = [\<lparr>key = PyInt 1, val = PyInt 1\<rparr>, \<lparr>key = PyInt 2, val = PyInt 2\<rparr>]\<rparr> =
      (Inr (), \<lparr>heap = [\<lparr>key = PyInt 1, val = PyInt 1\<rparr>, \<lparr>key = PyInt 2, val = PyInt 2\<rparr>]\<rparr>)"
    by code_simp
  have b2: "build_heap (MinHeap_push_down int_key_ge)
      \<lparr>heap = [\<lparr>key = PyInt 0, val = PyInt 0\<rparr>, \<lparr>key = PyInt 5, val = PyInt 5\<rparr>]\<rparr> =
      (Inr (), \<lparr>heap = [\<lparr>key = PyInt 0, val = PyInt 0\<rparr>, \<lparr>key = PyInt 5, val = PyInt 5\<rparr>]\<rparr>)"
    by code_simp
  have c1: "create_list_of_heap_nodes [PyInt 1, PyInt 2] =
      Inr [\<lparr>key = PyInt 1, val = PyInt 1\<rparr>, \<lparr>key = PyInt 2, val = PyInt 2\<rparr>]"
    and c2: "create_list_of_heap_nodes [PyInt 0, PyInt 5] =
      Inr [\<lparr>key = PyInt 0, val = PyInt 0\<rparr>, \<lparr>key = PyInt 5, val = PyInt 5\<rparr>]"
    by (simp_all add: create_list_of_heap_nodes_def BHNode_init_def)
  have f1: "for_each (MinHeap_push_down int_key_ge) (range_down 1 (- 1))
      \<lparr>heap = [\<lparr>key = PyInt 1, val = PyInt 1\<rparr>, \<lparr>key = PyInt 2, val = PyInt 2\<rparr>]\<rparr> =
      (Inr (), \<lparr>heap = [\<lparr>key = PyInt 1, val = PyInt 1\<rparr>, \<lparr>key = PyInt 2, val = PyInt 2\<rparr>]\<rparr>)"
    using b1 by (simp add: build_heap_def)
  have f2: "for_each (MinHeap_push_down int_key_ge) (range_down 1 (- 1))
      \<lparr>heap = [\<lparr>key = PyInt 0, val = PyInt 0\<rparr>, \<lparr>key = PyInt 5, val = PyInt 5\<rparr>]\<rparr> =
      (Inr (), \<lparr>heap = [\<lparr>key = PyInt 0, val = PyInt 0\<rparr>, \<lparr>key = PyInt 5, val = PyInt 5\<rparr>]\<rparr>)"
    using b2 by (simp add: build_heap_def)
  show ?thesis
    by (simp add: two_heaps_def BinaryHeap_init_in_def c1 c2 build_heap_in_def
        for_each_on_own_list empty_memory_def f1 f2) auto
qed

theorem merge_leaves_donor_witness:
  "list_at (snd (merge_in (on_own_list (MinHeap_push_down int_key_ge)) 0 1 two_heaps)) 1 =
     [\<lparr>key = PyInt 0, val = PyInt 0\<rparr>, \<lparr>key = PyInt 5, val = PyInt 5\<rparr>] \<and>
   list_at (snd (merge_in (on_own_list (MinHeap_push_down int_key_ge)) 0 1 two_heaps)) 0 =
     [\<lparr>key = PyInt 0, val = PyInt 0\<rparr>, \<lparr>key = PyInt 2, val = PyInt 2\<rparr>,
      \<lparr>key = PyInt 1, val = PyInt 1\<rparr>, \<lparr>key = PyInt 5, val = PyInt 5\<rparr>]"
proof -
  let ?pd = "on_own_list (MinHeap_push_down int_key_ge)"
  have own: "own_list_only ?pd" by (rule own_list_only_on_own_list)
  have sep: "separate two_heaps"
    unfolding two_heaps_def by (intro separate_init own separate_empty)
  have in0: "0 \<in> made two_heaps" and in1: "1 \<in> made two_heaps" and ne: "(0::nat) \<noteq> 1"
    by (simp_all add: two_heaps_eval)
  from merge_leaves_donor [of ?pd two_heaps 0 1] own sep in0 in1 ne
  have "list_at (snd (merge_in ?pd 0 1 two_heaps)) (heap_attr two_heaps 1) =
      list_at two_heaps (heap_attr two_heaps 1)"
    by blast
  then have donor: "list_at (snd (merge_in ?pd 0 1 two_heaps)) 1 =
      [\<lparr>key = PyInt 0, val = PyInt 0\<rparr>, \<lparr>key = PyInt 5, val = PyInt 5\<rparr>]"
    by (simp add: two_heaps_eval)
  have build: "build_heap (MinHeap_push_down int_key_ge)
      \<lparr>heap = [\<lparr>key = PyInt 1, val = PyInt 1\<rparr>, \<lparr>key = PyInt 2, val = PyInt 2\<rparr>,
               \<lparr>key = PyInt 0, val = PyInt 0\<rparr>, \<lparr>key = PyInt 5, val = PyInt 5\<rparr>]\<rparr> =
      (Inr (), \<lparr>heap = [\<lparr>key = PyInt 0, val = PyInt 0\<rparr>, \<lparr>key = PyInt 2, val = PyInt 2\<rparr>,
                        \<lparr>key = PyInt 1, val = PyInt 1\<rparr>, \<lparr>key = PyInt 5, val = PyInt 5\<rparr>]\<rparr>)"
    by code_simp
  have receiver: "list_at (snd (merge_in ?pd 0 1 two_heaps)) 0 =
     [\<lparr>key = PyInt 0, val = PyInt 0\<rparr>, \<lparr>key = PyInt 2, val = PyInt 2\<rparr>,
      \<lparr>key = PyInt 1, val = PyInt 1\<rparr>, \<lparr>key = PyInt 5, val = PyInt 5\<rparr>]"
    by (simp add: merge_in_by_value merge_def two_heaps_eval build)
  from donor receiver show ?thesis by simp
qed

text \<open>
  Where the receiver and the donor hold one list object, as a heap merged with itself
  does, the list is doubled.
\<close>

lemma merge_shared_list:
  "heap_attr mem self = heap_attr mem other \<Longrightarrow>
   list_at (snd (merge_in (on_own_list BinaryHeap_push_down) self other mem)) (heap_attr mem other) =
     list_at mem (heap_attr mem other) @ list_at mem (heap_attr mem other)"
proof -
  have pass: "for_each (\<lambda>i. on_own_list BinaryHeap_push_down i self) js m = (Inr (), m)" for js m
    by (induction js) (simp_all add: on_own_list_def BinaryHeap_push_down_def)
  assume "heap_attr mem self = heap_attr mem other"
  then show ?thesis
    by (simp add: merge_in_def build_heap_in_def pass Let_def)
qed

text \<open>
  Merging a heap into itself is the case the claim leaves out: the list is doubled.
\<close>

lemma for_each_pass: "for_each BinaryHeap_push_down js s = (Inr (), s)"
  by (induction js) (simp_all add: BinaryHeap_push_down_def)

lemma merge_self_doubles:
  "heap (snd (merge_call BinaryHeap_push_down self self st) self) = heap (st self) @ heap (st self)"
  by (simp add: merge_call_def merge_def build_heap_def for_each_pass)

section \<open>Searching for an absent argument\<close>

text \<open>
  Claim C10. \<^verbatim>\<open>search(None)\<close> and \<^verbatim>\<open>contains(None)\<close> raise \<^verbatim>\<open>ValueError\<close>, whatever
  the heap holds: neither returns \<open>-1\<close> or \<^verbatim>\<open>False\<close>.
\<close>

theorem search_None:
  "search eq PyNone self = (Inl (ValueError, ''x cannot be None.''), self) \<and>
   contains eq PyNone self = (Inl (ValueError, ''x cannot be None.''), self)"
  by (simp add: search_def contains_def)

section \<open>Rendering an empty heap\<close>

text \<open>
  Claim C8. For the empty list the renderer returns the text
  \<^verbatim>\<open>Nothing to print: heap is empty.\<close> and nothing else: no new line, no padding, no line
  of dashes, for every width and fill character.
\<close>

theorem render_empty:
  "build_pretty_binary_heap log_2 str [] total_width fill = ''Nothing to print: heap is empty.''"
  by (simp add: build_pretty_binary_heap_def)

section \<open>The abstract hooks\<close>

text \<open>
  The bodies of the two abstract hooks are \<^verbatim>\<open>pass\<close>. Called on an empty heap with index
  \<open>0\<close> they return, and raise nothing.
\<close>

theorem abstract_hooks_raise_counterexample:
  "BinaryHeap_push_down 0 \<lparr>heap = []\<rparr> = (Inr (), \<lparr>heap = []\<rparr>) \<and>
   BinaryHeap_push_up 0 \<lparr>heap = []\<rparr> = (Inr (), \<lparr>heap = []\<rparr>)"
  by (simp add: BinaryHeap_push_down_def BinaryHeap_push_up_def)

text \<open>
  Claim C6, amended. Calling the abstract class's own \<^verbatim>\<open>_push_down(i)\<close> or
  \<^verbatim>\<open>_push_up(i)\<close> returns without an error and leaves the heap as it was, for every index
  \<open>i\<close> and every heap.
\<close>

theorem abstract_hooks_pass:
  "BinaryHeap_push_down i self = (Inr (), self) \<and> BinaryHeap_push_up i self = (Inr (), self)"
  by (simp add: BinaryHeap_push_down_def BinaryHeap_push_up_def)

section \<open>Level parity\<close>

lemma float_mod_2_parity: "int_of_float (float_mod x 2) = \<lfloor>x\<rfloor> mod 2"
proof -
  have q: "\<lfloor>x / 2\<rfloor> = \<lfloor>x\<rfloor> div 2"
    using floor_divide_real_eq_div [of 2 x] by simp
  have nonneg: "0 \<le> x - 2 * of_int \<lfloor>x / 2\<rfloor>"
    using of_int_floor_le [of "x / 2"] by simp
  have "\<lfloor>x - 2 * of_int \<lfloor>x / 2\<rfloor>\<rfloor> = \<lfloor>x\<rfloor> - 2 * \<lfloor>x / 2\<rfloor>"
  proof -
    have "x - 2 * of_int \<lfloor>x / 2\<rfloor> = x - of_int (2 * \<lfloor>x / 2\<rfloor>)" by simp
    then show ?thesis by (simp only: floor_diff_of_int)
  qed
  also have "\<dots> = \<lfloor>x\<rfloor> mod 2"
    by (simp add: q minus_mult_div_eq_mod)
  finally show ?thesis
    using nonneg by (simp add: int_of_float_def float_mod_def)
qed

lemma is_good_index_int: "is_good_index (PyInt i) self = Inr (0 \<le> i \<and> i < size_heap self)"
  by (auto simp: is_good_index_def index_in_range_def)


text \<open>
  The exact logarithm of \<open>2\<^sup>4\<^sup>9 - 1\<close> lies less than \<open>2\<^sup>-\<^sup>4\<^sup>8\<close> below \<open>49\<close>. Floats
  between \<open>32\<close> and \<open>64\<close> are \<open>2\<^sup>-\<^sup>4\<^sup>7\<close> apart, so the float nearest to it is \<open>49\<close>,
  which is what \<^verbatim>\<open>math.log2(2**49 - 1)\<close> returns, while its integer part is \<open>48\<close>.
\<close>

lemma ln_2_gt: "3 / 5 < ln (2::real)"
proof -
  have "exp (3 / 5 :: real) ^ 5 = exp (of_nat 5 * (3 / 5))"
    by (simp only: exp_of_nat_mult)
  also have "\<dots> = exp (of_nat 3 * 1)" by simp
  also have "\<dots> = exp 1 ^ 3" by (simp only: exp_of_nat_mult)
  also have "\<dots> \<le> 3 ^ 3" by (intro power_mono exp_le) simp
  also have "\<dots> < (2::real) ^ 5" by simp
  finally have "exp (3 / 5 :: real) ^ 5 < 2 ^ 5" .
  then have "exp (3 / 5 :: real) < 2"
    by (rule power_less_imp_less_base) simp
  then have "ln (exp (3 / 5 :: real)) < ln 2"
    by (subst ln_less_cancel_iff) simp_all
  then show ?thesis by simp
qed

lemma log_2_near_49:
  "49 - 1 / 2 ^ 48 < log 2 (2 ^ 49 - 1) \<and> log 2 (2 ^ 49 - 1) < (49::real)"
proof -
  let ?e = "1 / 2 ^ 49 :: real"
  have split: "(2::real) ^ 49 - 1 = 2 ^ 49 * (1 - ?e)" by simp
  have pos: "0 < 1 - ?e" by simp
  have "log 2 (2 ^ 49 - 1) = log 2 (2 ^ 49) + log 2 (1 - ?e)"
    by (subst split, subst log_mult) (use pos in simp_all)
  also have "log 2 ((2::real) ^ 49) = 49" by (subst log_pow_cancel) simp_all
  finally have eq: "log 2 (2 ^ 49 - 1) = 49 + ln (1 - ?e) / ln 2"
    by (simp add: log_def)
  have "- ?e - 2 * ?e\<^sup>2 \<le> ln (1 - ?e)"
    by (rule ln_one_minus_pos_lower_bound) simp_all
  moreover have "ln (1 - ?e) < 0"
    by (rule ln_less_zero) simp_all
  ultimately have lo: "- ?e - 2 * ?e\<^sup>2 \<le> ln (1 - ?e)" and hi: "ln (1 - ?e) < 0"
    by simp_all
  have l2: "0 < ln (2::real)" by simp
  from hi l2 have up: "ln (1 - ?e) / ln 2 < 0"
    by (simp add: divide_neg_pos)
  have "- (1 / 2 ^ 48) * ln 2 < - (1 / 2 ^ 48) * (3 / 5 :: real)"
    using ln_2_gt by simp
  also have "\<dots> \<le> - ?e - 2 * ?e\<^sup>2"
    by (simp add: power2_eq_square)
  also note lo
  finally have "- (1 / 2 ^ 48) * ln 2 < ln (1 - ?e)" .
  with l2 have low: "- (1 / 2 ^ 48) < ln (1 - ?e) / ln 2"
    by (simp add: pos_less_divide_eq)
  from low eq have "49 - 1 / 2 ^ 48 < log 2 (2 ^ 49 - 1 :: real)" by linarith
  moreover from up eq have "log 2 (2 ^ 49 - 1 :: real) < 49" by linarith
  ultimately show ?thesis by blast
qed

lemma floor_log_2_below_49: "\<lfloor>log 2 (2 ^ 49 - 1 :: real)\<rfloor> = 48"
proof -
  from log_2_near_49 have "48 \<le> log 2 (2 ^ 49 - 1 :: real)" and "log 2 (2 ^ 49 - 1 :: real) < 48 + 1"
    by simp_all
  then show ?thesis by (subst floor_eq_iff) simp
qed

text \<open>
  An index that is not an \<^verbatim>\<open>int\<close>, such as \<open>0.0\<close>, raises \<^verbatim>\<open>TypeError\<close> and not
  \<^verbatim>\<open>IndexError\<close>. And with a logarithm that returns \<open>49\<close> at \<open>2\<^sup>4\<^sup>9 - 1\<close>, the valid index
  \<open>2\<^sup>4\<^sup>9 - 2\<close> of a heap of \<open>2\<^sup>4\<^sup>9 - 1\<close> nodes is reported on an odd level, where
  \<open>\<lfloor>log\<^sub>2 (i + 1)\<rfloor> mod 2 = 0\<close>.
\<close>

theorem level_parity_counterexample:
  "is_on_even_level (\<lambda>n. log 2 (of_int n)) (PyFloat (Finite 0))
     \<lparr>heap = [\<lparr>key = PyInt 1, val = PyInt 1\<rparr>]\<rparr> =
     (Inl (TypeError, ''indexes can only be int.''), \<lparr>heap = [\<lparr>key = PyInt 1, val = PyInt 1\<rparr>]\<rparr>) \<and>
   is_on_even_level (\<lambda>n. if n = 2 ^ 49 - 1 then 49 else log 2 (of_int n)) (PyInt (2 ^ 49 - 2))
     \<lparr>heap = replicate (2 ^ 49 - 1) \<lparr>key = PyInt 1, val = PyInt 1\<rparr>\<rparr> =
     (Inr False, \<lparr>heap = replicate (2 ^ 49 - 1) \<lparr>key = PyInt 1, val = PyInt 1\<rparr>\<rparr>) \<and>
   \<lfloor>log 2 (of_int (2 ^ 49 - 2 + 1))\<rfloor> mod 2 = 0"
proof -
  have a: "\<lfloor>log 2 (of_int (2 ^ 49 - 2 + 1))\<rfloor> mod 2 = 0"
    using floor_log_2_below_49 by simp
  have b: "is_on_even_level (\<lambda>n. if n = 2 ^ 49 - 1 then 49 else log 2 (of_int n)) (PyInt (2 ^ 49 - 2))
     \<lparr>heap = replicate (2 ^ 49 - 1) \<lparr>key = PyInt 1, val = PyInt 1\<rparr>\<rparr> =
     (Inr False, \<lparr>heap = replicate (2 ^ 49 - 1) \<lparr>key = PyInt 1, val = PyInt 1\<rparr>\<rparr>)"
    by (simp add: is_on_even_level_def is_good_index_int size_heap_def float_mod_2_parity)
  have c: "is_on_even_level (\<lambda>n. log 2 (of_int n)) (PyFloat (Finite 0))
     \<lparr>heap = [\<lparr>key = PyInt 1, val = PyInt 1\<rparr>]\<rparr> =
     (Inl (TypeError, ''indexes can only be int.''), \<lparr>heap = [\<lparr>key = PyInt 1, val = PyInt 1\<rparr>]\<rparr>)"
    by (simp add: is_on_even_level_def is_good_index_def)
  from a b c show ?thesis by simp
qed




section \<open>Bulk construction from malformed input\<close>

lemma create_nodes_append:
  "create_nodes (pre @ rest) acc =
     (case create_nodes pre acc of Inl e \<Rightarrow> Inl e | Inr nodes \<Rightarrow> create_nodes rest nodes)"
proof (induction pre arbitrary: acc)
  case Nil
  show ?case by simp
next
  case (Cons x pre)
  show ?case
    by (simp add: Cons.IH split: sum.splits)
qed

lemma create_nodes_wrong_arity:
  "py_len x = Inr l \<Longrightarrow> l \<noteq> 2 \<Longrightarrow>
   create_nodes (x # post) acc = Inl (ValueError, ''x should be a tuple or list of 2 elements.'')"
  by (cases x) auto

lemma create_nodes_None_item:
  "py_len x = Inr 2 \<Longrightarrow> py_getitem x 0 = Inr PyNone \<or> py_getitem x 1 = Inr PyNone \<Longrightarrow>
   create_nodes (x # post) acc = Inl (ValueError, ''keys or values cannot be None.'')"
  by (cases x) (auto simp: item_at_def split: sum.splits if_splits)

lemma create_nodes_number:
  "is_int_or_float x \<Longrightarrow> create_nodes [x] acc = Inr (acc @ [\<lparr>key = x, val = x\<rparr>])"
  by (cases x) (auto simp: BHNode_init_def)

lemma create_nodes_pair:
  "k \<noteq> PyNone \<Longrightarrow> v \<noteq> PyNone \<Longrightarrow>
   create_nodes [PyTuple [k, v]] acc = Inr (acc @ [\<lparr>key = k, val = v\<rparr>]) \<and>
   create_nodes [PyList [k, v]] acc = Inr (acc @ [\<lparr>key = k, val = v\<rparr>])"
  by (simp add: item_at_def BHNode_init_def)

text \<open>
  A one-element tuple and a pair whose key is \<^verbatim>\<open>None\<close> are both refused with a
  \<^verbatim>\<open>ValueError\<close>: the class of the exception is the same, only the message differs.
\<close>

theorem create_error_kinds_counterexample:
  "create_list_of_heap_nodes [PyTuple [PyInt 1]] =
     Inl (ValueError, ''x should be a tuple or list of 2 elements.'') \<and>
   create_list_of_heap_nodes [PyTuple [PyNone, PyInt 1]] =
     Inl (ValueError, ''keys or values cannot be None.'') \<and>
   fst (projl (create_list_of_heap_nodes [PyTuple [PyInt 1]])) =
     fst (projl (create_list_of_heap_nodes [PyTuple [PyNone, PyInt 1]]))"
  by (simp add: create_list_of_heap_nodes_def item_at_def)

text \<open>
  Claim C5, amended. The elements are taken in order. After elements that gave nodes, an
  \<^verbatim>\<open>int\<close> or \<^verbatim>\<open>float\<close> becomes a node with itself as key and value, and a tuple or list
  of a key and a value, neither \<^verbatim>\<open>None\<close>, becomes the node of that key and value. An
  element that has a length other than two makes construction raise \<^verbatim>\<open>ValueError\<close> with
  the message \<^verbatim>\<open>x should be a tuple or list of 2 elements.\<close>, and an element of length
  two whose first or second item is \<^verbatim>\<open>None\<close> makes it raise \<^verbatim>\<open>ValueError\<close> with the
  message \<^verbatim>\<open>keys or values cannot be None.\<close>, whatever follows it.
\<close>

theorem create_malformed:
  "create_list_of_heap_nodes pre = Inr nodes \<longrightarrow>
     (is_int_or_float x \<longrightarrow>
        create_list_of_heap_nodes (pre @ [x]) = Inr (nodes @ [\<lparr>key = x, val = x\<rparr>])) \<and>
     (k \<noteq> PyNone \<and> v \<noteq> PyNone \<longrightarrow>
        create_list_of_heap_nodes (pre @ [PyTuple [k, v]]) = Inr (nodes @ [\<lparr>key = k, val = v\<rparr>]) \<and>
        create_list_of_heap_nodes (pre @ [PyList [k, v]]) = Inr (nodes @ [\<lparr>key = k, val = v\<rparr>])) \<and>
     (py_len x = Inr l \<and> l \<noteq> 2 \<longrightarrow>
        create_list_of_heap_nodes (pre @ x # post) =
          Inl (ValueError, ''x should be a tuple or list of 2 elements.'')) \<and>
     (py_len x = Inr 2 \<and> (py_getitem x 0 = Inr PyNone \<or> py_getitem x 1 = Inr PyNone) \<longrightarrow>
        create_list_of_heap_nodes (pre @ x # post) =
          Inl (ValueError, ''keys or values cannot be None.''))"
  by (simp add: create_list_of_heap_nodes_def create_nodes_append create_nodes_wrong_arity
      create_nodes_None_item create_nodes_number create_nodes_pair del: create_nodes.simps)

theorem create_malformed_witness:
  "create_list_of_heap_nodes [PyInt 5, PyFloat PosInf] =
     Inr [\<lparr>key = PyInt 5, val = PyInt 5\<rparr>, \<lparr>key = PyFloat PosInf, val = PyFloat PosInf\<rparr>] \<and>
   create_list_of_heap_nodes [PyInt 5, PyTuple [PyInt 2, PyStr ''b'']] =
     Inr [\<lparr>key = PyInt 5, val = PyInt 5\<rparr>, \<lparr>key = PyInt 2, val = PyStr ''b''\<rparr>] \<and>
   create_list_of_heap_nodes [PyInt 5, PyTuple [PyInt 1], PyTuple [PyNone, PyInt 3]] =
     Inl (ValueError, ''x should be a tuple or list of 2 elements.'') \<and>
   create_list_of_heap_nodes [PyInt 5, PyTuple [PyInt 1, PyNone], PyTuple [PyInt 1]] =
     Inl (ValueError, ''keys or values cannot be None.'')"
proof -
  have pre: "create_list_of_heap_nodes [PyInt 5] = Inr [\<lparr>key = PyInt 5, val = PyInt 5\<rparr>]"
    by (simp add: create_list_of_heap_nodes_def BHNode_init_def)
  have num: "is_int_or_float (PyFloat PosInf)" by simp
  have kv: "PyInt 2 \<noteq> PyNone \<and> PyStr ''b'' \<noteq> PyNone" by simp
  have ar: "py_len (PyTuple [PyInt 1]) = Inr 1 \<and> (1::int) \<noteq> 2" by simp
  have nn: "py_len (PyTuple [PyInt 1, PyNone]) = Inr 2 \<and>
      (py_getitem (PyTuple [PyInt 1, PyNone]) 0 = Inr PyNone \<or>
       py_getitem (PyTuple [PyInt 1, PyNone]) 1 = Inr PyNone)"
    by (simp add: item_at_def)
  from create_malformed [of "[PyInt 5]" "[\<lparr>key = PyInt 5, val = PyInt 5\<rparr>]" "PyFloat PosInf"
      "PyInt 2" "PyStr ''b''" 0 "[]"] pre num kv
  have c1: "create_list_of_heap_nodes [PyInt 5, PyFloat PosInf] =
      Inr [\<lparr>key = PyInt 5, val = PyInt 5\<rparr>, \<lparr>key = PyFloat PosInf, val = PyFloat PosInf\<rparr>]"
    and c2: "create_list_of_heap_nodes [PyInt 5, PyTuple [PyInt 2, PyStr ''b'']] =
      Inr [\<lparr>key = PyInt 5, val = PyInt 5\<rparr>, \<lparr>key = PyInt 2, val = PyStr ''b''\<rparr>]"
    by simp_all
  from create_malformed [of "[PyInt 5]" "[\<lparr>key = PyInt 5, val = PyInt 5\<rparr>]" "PyTuple [PyInt 1]"
      "PyInt 2" "PyStr ''b''" 1 "[PyTuple [PyNone, PyInt 3]]"] pre ar
  have c3: "create_list_of_heap_nodes [PyInt 5, PyTuple [PyInt 1], PyTuple [PyNone, PyInt 3]] =
      Inl (ValueError, ''x should be a tuple or list of 2 elements.'')"
    by simp
  from create_malformed [of "[PyInt 5]" "[\<lparr>key = PyInt 5, val = PyInt 5\<rparr>]"
      "PyTuple [PyInt 1, PyNone]" "PyInt 2" "PyStr ''b''" 2 "[PyTuple [PyInt 1]]"] pre nn
  have c4: "create_list_of_heap_nodes [PyInt 5, PyTuple [PyInt 1, PyNone], PyTuple [PyInt 1]] =
      Inl (ValueError, ''keys or values cannot be None.'')"
    by (simp add: item_at_def)
  from c1 c2 c3 c4 show ?thesis by simp
qed

section \<open>Failure leaves the heap as it was\<close>

lemma for_each_good_returns:
  assumes c: "\<forall>i t. index_in_range i t \<longrightarrow>
      fst (pd i t) = Inr () \<and> length (heap (snd (pd i t))) = length (heap t)"
    and js: "\<forall>j \<in> set js. 0 \<le> j \<and> j < int (length (heap s))"
  shows "fst (for_each pd js s) = Inr ()"
  using js
proof (induction js arbitrary: s)
  case Nil
  show ?case by simp
next
  case (Cons j js)
  obtain r s' where run: "pd j s = (r, s')" by (cases "pd j s")
  from Cons.prems have "index_in_range j s"
    by (simp add: index_in_range_def size_heap_def)
  with c have "fst (pd j s) = Inr () \<and> length (heap (snd (pd j s))) = length (heap s)"
    by blast
  with run have r: "r = Inr ()" and len: "length (heap s') = length (heap s)"
    by simp_all
  from Cons.prems len have "\<forall>j \<in> set js. 0 \<le> j \<and> j < int (length (heap s'))"
    by simp
  from Cons.IH [OF this] run r show ?case by simp
qed

lemma build_heap_good_returns:
  assumes c: "\<forall>i t. index_in_range i t \<longrightarrow>
      fst (pd i t) = Inr () \<and> length (heap (snd (pd i t))) = length (heap t)"
  shows "fst (build_heap pd s) = Inr ()"
proof (cases "heap s = []")
  case True
  then show ?thesis by (simp add: build_heap_def)
next
  case False
  then have "length (heap s) div 2 < length (heap s)"
    by (cases "heap s") simp_all
  then have "\<forall>j \<in> set (range_down (int (length (heap s)) div 2) (- 1)).
      0 \<le> j \<and> j < int (length (heap s))"
    by (auto simp: range_down_upto)
  from for_each_good_returns [OF c this] False show ?thesis
    by (simp add: build_heap_def)
qed



text \<open>
  A \<^verbatim>\<open>_push_up\<close> that raises does so after \<^verbatim>\<open>add\<close> has appended the node, and a
  \<^verbatim>\<open>_push_down\<close> that raises does so after \<^verbatim>\<open>__init__\<close> has assigned the new nodes: the
  call fails and the heap is not what it was.
\<close>

theorem failure_leaves_heap_counterexample:
  "add raising_hook (PyInt 3) \<lparr>heap = [\<lparr>key = PyInt 5, val = PyInt 5\<rparr>]\<rparr> =
     (Inl (TypeError, ''unorderable keys''),
      \<lparr>heap = [\<lparr>key = PyInt 5, val = PyInt 5\<rparr>, \<lparr>key = PyInt 3, val = PyInt 3\<rparr>]\<rparr>) \<and>
   BinaryHeap_init raising_hook (Some [PyInt 3]) \<lparr>heap = [\<lparr>key = PyInt 5, val = PyInt 5\<rparr>]\<rparr> =
     (Inl (TypeError, ''unorderable keys''), \<lparr>heap = [\<lparr>key = PyInt 3, val = PyInt 3\<rparr>]\<rparr>)"
  by (simp add: add_def BHNode_init_def size_heap_def raising_hook_def BinaryHeap_init_def
      create_list_of_heap_nodes_def build_heap_def range_down.simps)



text \<open>
  With hooks that return whenever their index is valid, \<^verbatim>\<open>_push_down\<close> keeping the
  length of the list, every failure leaves the instance as it was.
\<close>

lemma failure_leaves_heap_good_hooks:
  "(\<forall>i t. index_in_range i t \<longrightarrow>
       fst (push_down i t) = Inr () \<and> length (heap (snd (push_down i t))) = length (heap t)) \<and>
   (\<forall>i t. index_in_range i t \<longrightarrow> fst (push_up i t) = Inr ()) \<longrightarrow>
     (fst (BinaryHeap_init push_down ls self) = Inl e \<longrightarrow>
        snd (BinaryHeap_init push_down ls self) = self) \<and>
     (fst (add push_up x self) = Inl e \<longrightarrow> snd (add push_up x self) = self) \<and>
     (fst (search eq x self) = Inl e \<longrightarrow> snd (search eq x self) = self) \<and>
     (fst (contains eq x self) = Inl e \<longrightarrow> snd (contains eq x self) = self)"
proof (intro impI conjI)
  assume h: "(\<forall>i t. index_in_range i t \<longrightarrow>
       fst (push_down i t) = Inr () \<and> length (heap (snd (push_down i t))) = length (heap t)) \<and>
   (\<forall>i t. index_in_range i t \<longrightarrow> fst (push_up i t) = Inr ())"
  {
    assume f: "fst (BinaryHeap_init push_down ls self) = Inl e"
    show "snd (BinaryHeap_init push_down ls self) = self"
    proof (cases "create_list_of_heap_nodes (case ls of None \<Rightarrow> [] | Some l \<Rightarrow> l)")
      case (Inl e')
      then show ?thesis by (simp add: BinaryHeap_init_def)
    next
      case (Inr nodes)
      from h have "fst (build_heap push_down (self\<lparr>heap := nodes\<rparr>)) = Inr ()"
        by (intro build_heap_good_returns) blast
      with f Inr show ?thesis by (simp add: BinaryHeap_init_def)
    qed
  }
  {
    assume f: "fst (add push_up x self) = Inl e"
    show "snd (add push_up x self) = self"
    proof (cases "x = PyNone")
      case True
      then show ?thesis by (simp add: add_def)
    next
      case False
      let ?self' = "self\<lparr>heap := heap self @
        [case x of PyBHNode k v \<Rightarrow> \<lparr>key = k, val = v\<rparr> | _ \<Rightarrow> \<lparr>key = x, val = x\<rparr>]\<rparr>"
      have "index_in_range (size_heap ?self' - 1) ?self'"
        by (simp add: index_in_range_def size_heap_def)
      with h have "fst (push_up (size_heap ?self' - 1) ?self') = Inr ()"
        by blast
      with f False show ?thesis
        by (simp add: add_def as_node_not_None Let_def split: if_splits)
    qed
  }
  show "snd (search eq x self) = self"
    by (simp add: search_def split: sum.splits)
  show "snd (contains eq x self) = self"
    by (simp add: contains_def search_def split: sum.splits)
qed

end
